theory Spec2Isabelle
  imports Complex_Main
begin

section \<open>Python values and exceptions\<close>

text \<open>
  The exceptions that the modelled code paths of \<^verbatim>\<open>backend.py\<close> can meet. A raise is a
  value \<open>Inl e\<close> of a sum type, a normal return is \<open>Inr v\<close>.
\<close>

datatype exn =
    FileNotFoundError
  | CalledProcessError int
  | PermissionError
  | NotADirectoryError
  | FileExistsError
  | OperationalError
  | TypeError
  | AttributeError
  | ZeroDivisionError

text \<open>The values passed to \<^verbatim>\<open>set_setting\<close>: strings, and the integer of \<^verbatim>\<open>backup_data\<close>.\<close>

datatype pyval = PyStr string | PyInt int

definition digit_char :: "nat \<Rightarrow> char" where
  "digit_char d = ''0123456789'' ! (d mod 10)"

function str_of_nat :: "nat \<Rightarrow> string" where
  "str_of_nat n = (if n < 10 then [digit_char n] else str_of_nat (n div 10) @ [digit_char (n mod 10)])"
  by pat_completeness auto
termination
  by (relation "measure (\<lambda>n. n)") auto

declare str_of_nat.simps [simp del]

definition str_of_int :: "int \<Rightarrow> string" where
  "str_of_int i = (if i < 0 then CHR ''-'' # str_of_nat (nat (- i)) else str_of_nat (nat i))"

text \<open>Python's \<^verbatim>\<open>str(value)\<close>.\<close>

fun py_str :: "pyval \<Rightarrow> string" where
  "py_str (PyStr s) = s"
| "py_str (PyInt i) = str_of_int i"

section \<open>The persistent store (class WaydroidDBHandler)\<close>

text \<open>
  The SQLite file holds three tables. A table that has not been created is \<open>None\<close>; a
  statement on a missing table raises \<^verbatim>\<open>sqlite3.OperationalError\<close>. The rows of
  \<^verbatim>\<open>settings\<close> and \<^verbatim>\<open>app_visibility\<close> are kept as lists in insertion order, so that a
  duplicated key would be visible. Each row of \<^verbatim>\<open>resource_logs\<close> carries the implicit
  \<^verbatim>\<open>rowid\<close> of SQLite, which the pruning statement selects on. The \<^verbatim>\<open>REAL\<close> columns are
  real numbers: rounding of floating point is not modelled. The methods below work on a
  store that the constructor has opened before: of the failures of the storage layer they
  model the missing table only (initialisation, further down, can also fail to create the
  directory, to open the file and to commit).
\<close>

record resource_row =
  rowid :: nat
  timestamp :: int
  cpu_usage :: real
  ram_usage :: real
  storage_usage :: real

record db =
  settings_tbl :: "(string \<times> string) list option"
  app_visibility_tbl :: "(string \<times> string \<times> int) list option"
  resource_logs_tbl :: "resource_row list option"

text \<open>A file that does not exist yet: \<^verbatim>\<open>sqlite3.connect\<close> creates it empty.\<close>

definition empty_db :: db where
  "empty_db = \<lparr>settings_tbl = None, app_visibility_tbl = None, resource_logs_tbl = None\<rparr>"

text \<open>\<^verbatim>\<open>CREATE TABLE IF NOT EXISTS\<close>.\<close>

definition create_table_if_not_exists :: "'a list option \<Rightarrow> 'a list option" where
  "create_table_if_not_exists t = (case t of None \<Rightarrow> Some [] | Some rows \<Rightarrow> Some rows)"

text \<open>\<^verbatim>\<open>INSERT OR IGNORE INTO settings (key, value)\<close>: the primary key decides.\<close>

definition insert_or_ignore :: "string \<Rightarrow> string \<Rightarrow> (string \<times> string) list \<Rightarrow> (string \<times> string) list" where
  "insert_or_ignore k v rows = (if k \<in> set (map fst rows) then rows else rows @ [(k, v)])"

text \<open>\<^verbatim>\<open>INSERT OR REPLACE\<close>: the row with the same primary key is deleted, the new row is added.\<close>

definition insert_or_replace :: "'k \<Rightarrow> 'v \<Rightarrow> ('k \<times> 'v) list \<Rightarrow> ('k \<times> 'v) list" where
  "insert_or_replace k v rows = filter (\<lambda>r. fst r \<noteq> k) rows @ [(k, v)]"

text \<open>
  The dictionary \<^verbatim>\<open>default_settings\<close>, in its order; \<open>now\<close> is \<^verbatim>\<open>int(time.time())\<close>.
\<close>

definition default_settings :: "int \<Rightarrow> (string \<times> string) list" where
  "default_settings now =
     [(''auto_start'', ''0''),
      (''auto_update'', ''0''),
      (''last_update_check'', py_str (PyInt now)),
      (''last_backup_time'', ''0'')]"

text \<open>
  The statements that \<^verbatim>\<open>_ensure_db_exists\<close> executes on its connection, from the first
  \<^verbatim>\<open>CREATE TABLE\<close> to the last \<^verbatim>\<open>INSERT OR IGNORE\<close>. The method itself, with the
  directory it creates, its connection and its commit, is \<open>ensure_db_exists\<close> below.
\<close>

definition ensure_db_statements :: "int \<Rightarrow> db \<Rightarrow> db" where
  "ensure_db_statements now d =
     (let s = create_table_if_not_exists (settings_tbl d);
          a = create_table_if_not_exists (app_visibility_tbl d);
          r = create_table_if_not_exists (resource_logs_tbl d);
          s' = map_option (\<lambda>rows. fold (\<lambda>(k, v). insert_or_ignore k v) (default_settings now) rows) s
      in \<lparr>settings_tbl = s', app_visibility_tbl = a, resource_logs_tbl = r\<rparr>)"

text \<open>\<^verbatim>\<open>SELECT value FROM settings WHERE key = ?\<close> with \<^verbatim>\<open>fetchone\<close>: the first match, or \<^verbatim>\<open>None\<close>.\<close>

definition get_setting :: "string \<Rightarrow> db \<Rightarrow> exn + string option" where
  "get_setting k d =
     (case settings_tbl d of
        None \<Rightarrow> Inl OperationalError
      | Some rows \<Rightarrow> Inr (map_of rows k))"

definition set_setting :: "string \<Rightarrow> pyval \<Rightarrow> db \<Rightarrow> exn + db" where
  "set_setting k v d =
     (case settings_tbl d of
        None \<Rightarrow> Inl OperationalError
      | Some rows \<Rightarrow> Inr (d\<lparr>settings_tbl := Some (insert_or_replace k (py_str v) rows)\<rparr>))"

text \<open>\<^verbatim>\<open>SELECT * FROM app_visibility\<close>.\<close>

definition get_app_visibility :: "db \<Rightarrow> exn + (string \<times> string \<times> int) list" where
  "get_app_visibility d =
     (case app_visibility_tbl d of
        None \<Rightarrow> Inl OperationalError
      | Some rows \<Rightarrow> Inr rows)"

definition db_set_app_visibility :: "string \<Rightarrow> string \<Rightarrow> bool \<Rightarrow> db \<Rightarrow> exn + db" where
  "db_set_app_visibility package_name app_name visible d =
     (case app_visibility_tbl d of
        None \<Rightarrow> Inl OperationalError
      | Some rows \<Rightarrow>
          Inr (d\<lparr>app_visibility_tbl :=
                  Some (insert_or_replace package_name (app_name, if visible then 1 else 0) rows)\<rparr>))"

text \<open>
  A table without an explicit primary key gives a new row the largest \<^verbatim>\<open>rowid\<close> in use
  plus one, and 1 in an empty table.
\<close>

definition next_rowid :: "resource_row list \<Rightarrow> nat" where
  "next_rowid rows = Suc (fold max (map rowid rows) 0)"

text \<open>
  \<^verbatim>\<open>SELECT rowid FROM resource_logs ORDER BY timestamp DESC LIMIT 100\<close>. SQLite leaves the
  order of rows with equal timestamps open; the model sorts stably, so such rows come in
  table order.
\<close>

definition newest_rowids :: "resource_row list \<Rightarrow> nat list" where
  "newest_rowids rows = map rowid (take 100 (sort_key (\<lambda>r. - timestamp r) rows))"

text \<open>\<^verbatim>\<open>DELETE FROM resource_logs WHERE rowid NOT IN (...)\<close>.\<close>

definition prune_logs :: "resource_row list \<Rightarrow> resource_row list" where
  "prune_logs rows = filter (\<lambda>r. rowid r \<in> set (newest_rowids rows)) rows"

definition new_row :: "int \<Rightarrow> real \<Rightarrow> real \<Rightarrow> real \<Rightarrow> resource_row list \<Rightarrow> resource_row" where
  "new_row now c r s rows =
     \<lparr>rowid = next_rowid rows, timestamp = now, cpu_usage = c, ram_usage = r, storage_usage = s\<rparr>"

definition log_resource_usage :: "int \<Rightarrow> real \<Rightarrow> real \<Rightarrow> real \<Rightarrow> db \<Rightarrow> exn + db" where
  "log_resource_usage now c r s d =
     (case resource_logs_tbl d of
        None \<Rightarrow> Inl OperationalError
      | Some rows \<Rightarrow>
          Inr (d\<lparr>resource_logs_tbl := Some (prune_logs (rows @ [new_row now c r s rows]))\<rparr>))"


section \<open>Strings and paths\<close>

definition newline :: char where
  "newline = CHR 0x0A"

text \<open>\<^verbatim>\<open>s.startswith(p)\<close>, \<^verbatim>\<open>s.endswith(p)\<close> and the substring test \<^verbatim>\<open>sub in s\<close>.\<close>

definition startswith :: "string \<Rightarrow> string \<Rightarrow> bool" where
  "startswith s p = (take (length p) s = p)"

definition endswith :: "string \<Rightarrow> string \<Rightarrow> bool" where
  "endswith s p = startswith (rev s) (rev p)"

fun contains :: "string \<Rightarrow> string \<Rightarrow> bool" where
  "contains sub [] = (sub = [])"
| "contains sub (c # cs) = (startswith (c # cs) sub \<or> contains sub cs)"

text \<open>\<^verbatim>\<open>str.lower\<close> on ASCII letters; other characters are left as they are.\<close>

definition lower_char :: "char \<Rightarrow> char" where
  "lower_char c =
     (case map_of (zip ''ABCDEFGHIJKLMNOPQRSTUVWXYZ'' ''abcdefghijklmnopqrstuvwxyz'') c of
        None \<Rightarrow> c
      | Some l \<Rightarrow> l)"

definition lower :: "string \<Rightarrow> string" where
  "lower s = map lower_char s"

definition str_of_bool :: "bool \<Rightarrow> string" where
  "str_of_bool b = (if b then ''True'' else ''False'')"

text \<open>
  \<^verbatim>\<open>f.readlines()\<close>: the text cut after each line feed, the line feeds kept; a last line
  without a line feed is a line of its own. The text is the one Python hands over, after
  its translation of line endings.
\<close>

fun readlines :: "string \<Rightarrow> string list" where
  "readlines [] = []"
| "readlines (c # cs) =
     (if c = newline then [c] # readlines cs
      else (case readlines cs of [] \<Rightarrow> [[c]] | l # ls \<Rightarrow> (c # l) # ls))"

text \<open>\<^verbatim>\<open>os.path.join\<close>, \<^verbatim>\<open>os.path.basename\<close> and \<^verbatim>\<open>os.path.dirname\<close> of \<^verbatim>\<open>posixpath\<close>.\<close>

definition path_join :: "string \<Rightarrow> string \<Rightarrow> string" where
  "path_join a b =
     (if startswith b ''/'' then b
      else if a = [] \<or> endswith a ''/'' then a @ b
      else a @ ''/'' @ b)"

definition basename :: "string \<Rightarrow> string" where
  "basename p = rev (takeWhile (\<lambda>c. c \<noteq> CHR ''/'') (rev p))"

definition dirname :: "string \<Rightarrow> string" where
  "dirname p =
     (let head = rev (dropWhile (\<lambda>c. c \<noteq> CHR ''/'') (rev p))
      in if head \<noteq> [] \<and> \<not> list_all (\<lambda>c. c = CHR ''/'') head
         then rev (dropWhile (\<lambda>c. c = CHR ''/'') (rev head))
         else head)"


definition WAYDROID_DATA_PATH :: string where
  "WAYDROID_DATA_PATH = ''/var/lib/waydroid''"

definition WAYDROID_APPS_PATH :: string where
  "WAYDROID_APPS_PATH = ''~/.local/share/applications/waydroid''"

definition BACKUP_PATH :: string where
  "BACKUP_PATH = ''~/Documents/WaydroidBackups''"

section \<open>The world outside the process\<close>

text \<open>
  What an external command does when it is invoked: the binary is missing
  (\<^verbatim>\<open>FileNotFoundError\<close>), it cannot be executed (\<^verbatim>\<open>PermissionError\<close>), or it runs and
  exits with a code and its standard output.
\<close>

datatype outcome = NotFound | NotExecutable | Exited int string

text \<open>
  The effects of the process on the outside, in the order they happen: a command invoked
  with its argument vector, a \<^verbatim>\<open>time.sleep\<close>, and the bus signal \<^verbatim>\<open>ResourceUsageChanged\<close>.
\<close>

datatype event =
    Exec "string list"
  | Sleep nat
  | ResourceUsageChanged real real real

text \<open>
  One process as \<^verbatim>\<open>psutil\<close> shows it. \<^verbatim>\<open>process_iter\<close> puts \<^verbatim>\<open>None\<close> for a name or a
  command line it may not read; \<^verbatim>\<open>cpu_percent\<close> and \<^verbatim>\<open>memory_info\<close> raise for a process
  that is gone or protected, here \<open>None\<close>.
\<close>

record proc_info =
  p_name :: "string option"
  p_cmdline :: "string list option"
  p_cpu_percent :: "real option"
  p_rss :: "nat option"

text \<open>
  A directory tree as \<^verbatim>\<open>os.scandir\<close> walks it: a file with its size, a directory with its
  entries (\<open>None\<close> when it cannot be listed), or an entry that is neither.
\<close>

datatype node = FileNode nat | DirNode "node list option" | OtherNode

text \<open>A desktop entry: its text (\<open>None\<close> when it cannot be opened for reading) and whether
  it can be opened for writing.\<close>

record dfile =
  content :: "string option"
  writable :: bool

record world =
  store :: db
  clock :: int
  strftime :: "int \<Rightarrow> string"
  proc :: "event list \<Rightarrow> string list \<Rightarrow> outcome"
  trace :: "event list"
  logged :: "(string \<times> exn option) list"
  processes :: "proc_info list"
  cpu_count :: "nat option"
  data_dir :: "node option"
  apps_dir :: "(string \<times> dfile) list option"
  listdir :: "string \<Rightarrow> string list option"
  isdir :: "string \<Rightarrow> bool"
  getmtime :: "string \<Rightarrow> real"
  path_exists :: "string \<Rightarrow> bool"
  makedirs_ok :: "string \<Rightarrow> bool"
  connect_ok :: "string \<Rightarrow> bool"
  commit_ok :: "string \<Rightarrow> bool"
  monitoring :: bool

text \<open>\<^verbatim>\<open>logger.error\<close>: the message and the exception formatted into it.\<close>

definition logger_error :: "string \<Rightarrow> exn option \<Rightarrow> world \<Rightarrow> world" where
  "logger_error msg e w = w\<lparr>logged := logged w @ [(msg, e)]\<rparr>"

definition sleep :: "nat \<Rightarrow> world \<Rightarrow> world" where
  "sleep n w = w\<lparr>clock := clock w + int n, trace := trace w @ [Sleep n]\<rparr>"

text \<open>An invocation is recorded, and answered from the invocations made so far.\<close>

definition executed :: "string list \<Rightarrow> world \<Rightarrow> world" where
  "executed argv w = w\<lparr>trace := trace w @ [Exec argv]\<rparr>"

definition spawn :: "string list \<Rightarrow> world \<Rightarrow> outcome \<times> world" where
  "spawn argv w = (proc w (trace w) argv, executed argv w)"

text \<open>\<^verbatim>\<open>subprocess.check_output(argv)\<close>.\<close>

definition check_output :: "string list \<Rightarrow> world \<Rightarrow> (exn + string) \<times> world" where
  "check_output argv w =
     (case spawn argv w of
        (NotFound, w') \<Rightarrow> (Inl FileNotFoundError, w')
      | (NotExecutable, w') \<Rightarrow> (Inl PermissionError, w')
      | (Exited code out, w') \<Rightarrow> (if code = 0 then Inr out else Inl (CalledProcessError code), w'))"

text \<open>\<^verbatim>\<open>subprocess.run(argv, check=True)\<close>.\<close>

definition run_check :: "string list \<Rightarrow> world \<Rightarrow> (exn + unit) \<times> world" where
  "run_check argv w =
     (case spawn argv w of
        (NotFound, w') \<Rightarrow> (Inl FileNotFoundError, w')
      | (NotExecutable, w') \<Rightarrow> (Inl PermissionError, w')
      | (Exited code out, w') \<Rightarrow> (if code = 0 then Inr () else Inl (CalledProcessError code), w'))"

text \<open>\<^verbatim>\<open>subprocess.Popen(argv)\<close> returns once the child is launched: its exit is not awaited.\<close>

definition popen :: "string list \<Rightarrow> world \<Rightarrow> (exn + unit) \<times> world" where
  "popen argv w =
     (case spawn argv w of
        (NotFound, w') \<Rightarrow> (Inl FileNotFoundError, w')
      | (NotExecutable, w') \<Rightarrow> (Inl PermissionError, w')
      | (Exited code out, w') \<Rightarrow> (Inr (), w'))"

text \<open>
  \<^verbatim>\<open>os.makedirs(p, exist_ok=True)\<close>: \<^verbatim>\<open>FileNotFoundError\<close> for the empty path; nothing
  when the directory is there; an exception when the path is taken by something else or
  may not be created; otherwise the directory is created, and listed in its parent when
  the parent is listed.
\<close>

definition makedirs :: "string \<Rightarrow> world \<Rightarrow> (exn + unit) \<times> world" where
  "makedirs p w =
     (if p = [] then (Inl FileNotFoundError, w)
      else if path_exists w p \<and> isdir w p then (Inr (), w)
      else if path_exists w p then (Inl FileExistsError, w)
      else if \<not> makedirs_ok w p then (Inl PermissionError, w)
      else (Inr (),
            w\<lparr>path_exists := (path_exists w)(p := True),
              isdir := (isdir w)(p := True),
              listdir := (listdir w)
                (dirname p := map_option (\<lambda>l. l @ [basename p]) (listdir w (dirname p)),
                 p := Some [])\<rparr>))"

subsection \<open>Opening the store\<close>

text \<open>
  \<^verbatim>\<open>_ensure_db_exists\<close>, which the constructor of the handler runs on its \<^verbatim>\<open>db_path\<close>: the
  directory of the file is created if need be, the file is opened, the statements are
  executed and committed. \<open>store\<close> is the content of the file at \<^verbatim>\<open>db_path\<close>. The field
  \<open>connect_ok\<close> says whether \<^verbatim>\<open>sqlite3.connect\<close> with the statements after it can open and
  use the file, \<open>commit_ok\<close> whether the commit goes through; each raises
  \<^verbatim>\<open>sqlite3.OperationalError\<close> otherwise, and what has not been committed is not in the file.
\<close>

definition ensure_db_exists :: "string \<Rightarrow> world \<Rightarrow> (exn + unit) \<times> world" where
  "ensure_db_exists db_path w =
     (case makedirs (dirname db_path) w of
        (Inl e, w1) \<Rightarrow> (Inl e, w1)
      | (Inr u, w1) \<Rightarrow>
          if \<not> connect_ok w1 db_path then (Inl OperationalError, w1)
          else if \<not> commit_ok w1 db_path then (Inl OperationalError, w1)
          else (Inr (), w1\<lparr>store := ensure_db_statements (clock w1) (store w1)\<rparr>))"

section \<open>The controller (class WaydroidController)\<close>

definition is_container_running :: "world \<Rightarrow> (exn + bool) \<times> world" where
  "is_container_running w =
     (case check_output [''waydroid'', ''status''] w of
        (Inr output, w') \<Rightarrow> (Inr (contains ''RUNNING'' output), w')
      | (Inl (CalledProcessError code), w') \<Rightarrow> (Inr False, w')
      | (Inl FileNotFoundError, w') \<Rightarrow>
          (Inr False, logger_error ''Waydroid command not found. Is Waydroid installed?'' None w')
      | (Inl e, w') \<Rightarrow> (Inl e, w'))"

definition start_container :: "world \<Rightarrow> bool \<times> world" where
  "start_container w =
     (case popen [''waydroid'', ''session'', ''start''] w of
        (Inr u, w') \<Rightarrow> (True, w')
      | (Inl e, w') \<Rightarrow> (False, logger_error ''Failed to start container: '' (Some e) w'))"

definition stop_container :: "world \<Rightarrow> bool \<times> world" where
  "stop_container w =
     (case run_check [''waydroid'', ''session'', ''stop''] w of
        (Inr u, w') \<Rightarrow> (True, w')
      | (Inl e, w') \<Rightarrow> (False, logger_error ''Failed to stop container: '' (Some e) w'))"

text \<open>
  The results of \<^verbatim>\<open>stop_container\<close> and \<^verbatim>\<open>start_container\<close> are dropped; neither raises,
  so the handler of \<^verbatim>\<open>restart_container\<close> is never entered.
\<close>

definition restart_container :: "world \<Rightarrow> bool \<times> world" where
  "restart_container w =
     (let w1 = snd (stop_container w);
          w2 = sleep 2 w1;
          w3 = snd (start_container w2)
      in (True, w3))"

definition freeze_container :: "world \<Rightarrow> bool \<times> world" where
  "freeze_container w =
     (case run_check [''waydroid'', ''container'', ''freeze''] w of
        (Inr u, w') \<Rightarrow> (True, w')
      | (Inl e, w') \<Rightarrow> (False, logger_error ''Failed to freeze container: '' (Some e) w'))"

definition unfreeze_container :: "world \<Rightarrow> bool \<times> world" where
  "unfreeze_container w =
     (case run_check [''waydroid'', ''container'', ''unfreeze''] w of
        (Inr u, w') \<Rightarrow> (True, w')
      | (Inl e, w') \<Rightarrow> (False, logger_error ''Failed to unfreeze container: '' (Some e) w'))"

subsection \<open>Resource sampling\<close>

text \<open>The test of the first loop of \<^verbatim>\<open>get_container_resource_usage\<close> on one process.\<close>

definition is_waydroid_process :: "proc_info \<Rightarrow> exn + bool" where
  "is_waydroid_process p =
     (case p_name p of
        None \<Rightarrow> Inl AttributeError
      | Some n \<Rightarrow>
          if contains ''waydroid'' (lower n) then Inr True
          else (case p_cmdline p of
                  None \<Rightarrow> Inl TypeError
                | Some cmdline \<Rightarrow>
                    Inr (list_ex (\<lambda>cmd. contains ''waydroid'' (lower cmd))
                           (filter (\<lambda>cmd. cmd \<noteq> []) cmdline))))"

fun waydroid_processes :: "proc_info list \<Rightarrow> exn + proc_info list" where
  "waydroid_processes [] = Inr []"
| "waydroid_processes (p # ps) =
     (case is_waydroid_process p of
        Inl e \<Rightarrow> Inl e
      | Inr b \<Rightarrow>
          (case waydroid_processes ps of
             Inl e \<Rightarrow> Inl e
           | Inr qs \<Rightarrow> Inr (if b then p # qs else qs)))"

text \<open>The two summing loops: a process whose figure cannot be read is passed over.\<close>

definition total_cpu :: "proc_info list \<Rightarrow> real" where
  "total_cpu ps = fold (\<lambda>p t. case p_cpu_percent p of None \<Rightarrow> t | Some c \<Rightarrow> t + c) ps 0"

definition total_ram :: "proc_info list \<Rightarrow> real" where
  "total_ram ps = fold (\<lambda>p t. case p_rss p of None \<Rightarrow> t | Some m \<Rightarrow> t + real m) ps 0"

text \<open>
  \<^verbatim>\<open>total_cpu / psutil.cpu_count() if total_cpu > 0 else 0\<close>, where \<^verbatim>\<open>cpu_count\<close> may
  return \<^verbatim>\<open>None\<close>.
\<close>

definition cpu_fraction :: "real \<Rightarrow> nat option \<Rightarrow> exn + real" where
  "cpu_fraction t n =
     (if t > 0
      then (case n of
              None \<Rightarrow> Inl TypeError
            | Some k \<Rightarrow> if k = 0 then Inl ZeroDivisionError else Inr (t / real k))
      else Inr 0)"

text \<open>
  \<^verbatim>\<open>_get_dir_size\<close>, called on the node found at the path: \<^verbatim>\<open>os.scandir\<close> raises for
  a directory that cannot be listed and for a path that is no directory; the sizes of the
  files and, by the recursive call, of the directories are summed, and the first exception
  ends the walk.
\<close>

fun add_sizes :: "(exn + nat) list \<Rightarrow> nat \<Rightarrow> exn + nat" where
  "add_sizes [] acc = Inr acc"
| "add_sizes (Inl e # rs) acc = Inl e"
| "add_sizes (Inr n # rs) acc = add_sizes rs (acc + n)"

fun get_dir_size :: "node \<Rightarrow> exn + nat" where
  "get_dir_size (DirNode (Some entries)) =
     add_sizes (map (\<lambda>entry. case entry of
                        FileNode n \<Rightarrow> Inr n
                      | DirNode es \<Rightarrow> get_dir_size entry
                      | OtherNode \<Rightarrow> Inr 0) entries) 0"
| "get_dir_size (DirNode None) = Inl PermissionError"
| "get_dir_size (FileNode n) = Inl NotADirectoryError"
| "get_dir_size OtherNode = Inl NotADirectoryError"

text \<open>
  The \<^verbatim>\<open>try\<close> block of \<^verbatim>\<open>get_container_resource_usage\<close>: the three figures as the local
  variables hold them when the block is left, and the exception that ended it, if any.
  Each figure is assigned once its part of the block is through; the ones not reached keep
  their initial \<^verbatim>\<open>0.0\<close>.
\<close>

definition sample_resources :: "world \<Rightarrow> (real \<times> real \<times> real) \<times> exn option" where
  "sample_resources w =
     (case waydroid_processes (processes w) of
        Inl e \<Rightarrow> ((0, 0, 0), Some e)
      | Inr ps \<Rightarrow>
          (case cpu_fraction (total_cpu ps) (cpu_count w) of
             Inl e \<Rightarrow> ((0, 0, 0), Some e)
           | Inr cpu \<Rightarrow>
               (let ram = total_ram ps / (1024 * 1024) in
                case data_dir w of
                  None \<Rightarrow> ((cpu, ram, 0), None)
                | Some n \<Rightarrow>
                    (case get_dir_size n of
                       Inl e \<Rightarrow> ((cpu, ram, 0), Some e)
                     | Inr sz \<Rightarrow> ((cpu, ram, real sz / (1024 * 1024 * 1024)), None)))))"

text \<open>
  The returned dictionary is the triple of its three values. The call of
  \<^verbatim>\<open>log_resource_usage\<close> is outside the \<^verbatim>\<open>try\<close> block: what it raises leaves the method.
\<close>

definition get_container_resource_usage :: "world \<Rightarrow> (exn + real \<times> real \<times> real) \<times> world" where
  "get_container_resource_usage w =
     (case sample_resources w of
        ((cpu, ram, sto), err) \<Rightarrow>
          (let w1 = (case err of
                       None \<Rightarrow> w
                     | Some e \<Rightarrow> logger_error ''Failed to get resource usage: '' (Some e) w)
           in case log_resource_usage (clock w1) cpu ram sto (store w1) of
                Inl e \<Rightarrow> (Inl e, w1)
              | Inr d \<Rightarrow> (Inr (cpu, ram, sto), w1\<lparr>store := d\<rparr>)))"

subsection \<open>App visibility\<close>

text \<open>\<^verbatim>\<open>f'NoDisplay={str(not visible).lower()}\n'\<close>.\<close>

definition no_display_line :: "bool \<Rightarrow> string" where
  "no_display_line visible = ''NoDisplay='' @ lower (str_of_bool (\<not> visible)) @ [newline]"

text \<open>What the second loop of \<^verbatim>\<open>set_app_visibility\<close> writes into one file, from its lines.\<close>

definition rewrite_lines :: "bool \<Rightarrow> string list \<Rightarrow> string" where
  "rewrite_lines visible lines =
     (let body = concat (map (\<lambda>line. if startswith line ''NoDisplay=''
                                      then no_display_line visible else line) lines);
          no_display_found = list_ex (\<lambda>line. startswith line ''NoDisplay='') lines
      in if no_display_found then body else body @ no_display_line visible)"

text \<open>
  The first loop, over the listing of \<^verbatim>\<open>WAYDROID_APPS_PATH\<close>: the names of the
  \<^verbatim>\<open>.desktop\<close> files whose text contains the package name. A file that cannot be read
  ends the loop with the exception.
\<close>

fun find_desktop_files :: "string \<Rightarrow> (string \<times> dfile) list \<Rightarrow> exn + string list" where
  "find_desktop_files package_name [] = Inr []"
| "find_desktop_files package_name ((file_name, f) # rest) =
     (if endswith file_name ''.desktop''
      then (case content f of
              None \<Rightarrow> Inl PermissionError
            | Some text \<Rightarrow>
                (case find_desktop_files package_name rest of
                   Inl e \<Rightarrow> Inl e
                 | Inr found \<Rightarrow> Inr (if contains package_name text then file_name # found else found)))
      else find_desktop_files package_name rest)"

definition write_file :: "string \<Rightarrow> string \<Rightarrow> (string \<times> dfile) list \<Rightarrow> (string \<times> dfile) list" where
  "write_file file_name text files =
     map (\<lambda>(n, f). if n = file_name then (n, f\<lparr>content := Some text\<rparr>) else (n, f)) files"

text \<open>
  The second loop: each file found is read again and written anew. A file that cannot be
  opened ends the loop with the exception; the files written before it stay written.
\<close>

fun update_desktop_files ::
  "bool \<Rightarrow> string list \<Rightarrow> (string \<times> dfile) list \<Rightarrow> exn option \<times> (string \<times> dfile) list" where
  "update_desktop_files visible [] files = (None, files)"
| "update_desktop_files visible (file_name # rest) files =
     (case map_of files file_name of
        None \<Rightarrow> (Some FileNotFoundError, files)
      | Some f \<Rightarrow>
          (case content f of
             None \<Rightarrow> (Some PermissionError, files)
           | Some text \<Rightarrow>
               if \<not> writable f then (Some PermissionError, files)
               else update_desktop_files visible rest
                      (write_file file_name (rewrite_lines visible (readlines text)) files)))"

definition set_app_visibility :: "string \<Rightarrow> string \<Rightarrow> bool \<Rightarrow> world \<Rightarrow> bool \<times> world" where
  "set_app_visibility package_name app_name visible w =
     (case db_set_app_visibility package_name app_name visible (store w) of
        Inl e \<Rightarrow> (False, logger_error ''Failed to set app visibility: '' (Some e) w)
      | Inr d \<Rightarrow>
          (let w1 = w\<lparr>store := d\<rparr> in
           case apps_dir w1 of
             None \<Rightarrow> (True, w1)
           | Some files \<Rightarrow>
               (case find_desktop_files package_name files of
                  Inl e \<Rightarrow> (False, logger_error ''Failed to set app visibility: '' (Some e) w1)
                | Inr desktop_files \<Rightarrow>
                    (case update_desktop_files visible desktop_files files of
                       (Some e, files') \<Rightarrow>
                         (False, logger_error ''Failed to set app visibility: '' (Some e)
                                   (w1\<lparr>apps_dir := Some files'\<rparr>))
                     | (None, files') \<Rightarrow> (True, w1\<lparr>apps_dir := Some files'\<rparr>)))))"

subsection \<open>Backup and restore\<close>

definition backup_data_cmd :: "string \<Rightarrow> string list" where
  "backup_data_cmd backup_dir =
     [''sudo'', ''tar'', ''czf'', path_join backup_dir ''waydroid_data.tar.gz'',
      ''-C'', dirname WAYDROID_DATA_PATH, basename WAYDROID_DATA_PATH]"

definition backup_apps_cmd :: "string \<Rightarrow> string list" where
  "backup_apps_cmd backup_dir =
     [''tar'', ''czf'', path_join backup_dir ''waydroid_apps.tar.gz'',
      ''-C'', dirname WAYDROID_APPS_PATH, basename WAYDROID_APPS_PATH]"

definition backup_failed :: "exn \<Rightarrow> world \<Rightarrow> bool \<times> world" where
  "backup_failed e w = (False, logger_error ''Failed to backup data: '' (Some e) w)"

definition backup_data :: "world \<Rightarrow> bool \<times> world" where
  "backup_data w =
     (case makedirs BACKUP_PATH w of
        (Inl e, w1) \<Rightarrow> backup_failed e w1
      | (Inr u, w1) \<Rightarrow>
     (let timestamp = strftime w1 (clock w1);
          backup_dir = path_join BACKUP_PATH (''waydroid_backup_'' @ timestamp) in
      case makedirs backup_dir w1 of
        (Inl e, w2) \<Rightarrow> backup_failed e w2
      | (Inr u, w2) \<Rightarrow>
     (case is_container_running w2 of
        (Inl e, w3) \<Rightarrow> backup_failed e w3
      | (Inr was_running, w3) \<Rightarrow>
     (let w4 = (if was_running then snd (stop_container w3) else w3) in
      case (if data_dir w4 \<noteq> None then run_check (backup_data_cmd backup_dir) w4 else (Inr (), w4)) of
        (Inl e, w5) \<Rightarrow> backup_failed e w5
      | (Inr u, w5) \<Rightarrow>
     (case (if apps_dir w5 \<noteq> None then run_check (backup_apps_cmd backup_dir) w5 else (Inr (), w5)) of
        (Inl e, w6) \<Rightarrow> backup_failed e w6
      | (Inr u, w6) \<Rightarrow>
     (case set_setting ''last_backup_time'' (PyInt (clock w6)) (store w6) of
        Inl e \<Rightarrow> backup_failed e w6
      | Inr d \<Rightarrow>
          (let w7 = w6\<lparr>store := d\<rparr>;
               w8 = (if was_running then snd (start_container w7) else w7)
           in (True, w8))))))))"

text \<open>Python's \<^verbatim>\<open>max(xs, key=f)\<close> on a list that is not empty: the first of the greatest.\<close>

fun max_by :: "('a \<Rightarrow> real) \<Rightarrow> 'a \<Rightarrow> 'a list \<Rightarrow> 'a" where
  "max_by key best [] = best"
| "max_by key best (x # xs) = max_by key (if key x > key best then x else best) xs"

definition restore_data_cmd :: "string \<Rightarrow> string list" where
  "restore_data_cmd data_backup =
     [''sudo'', ''tar'', ''xzf'', data_backup, ''-C'', dirname WAYDROID_DATA_PATH]"

definition restore_apps_cmd :: "string \<Rightarrow> string list" where
  "restore_apps_cmd apps_backup =
     [''tar'', ''xzf'', apps_backup, ''-C'', dirname WAYDROID_APPS_PATH]"

text \<open>
  The body of \<^verbatim>\<open>restore_data\<close> from the check of the backup files on, for the directory
  chosen; an exception is handed to the handler of \<^verbatim>\<open>restore_data\<close>.
\<close>

definition restore_from :: "string \<Rightarrow> world \<Rightarrow> (exn + bool) \<times> world" where
  "restore_from backup_dir w =
     (let data_backup = path_join backup_dir ''waydroid_data.tar.gz'';
          apps_backup = path_join backup_dir ''waydroid_apps.tar.gz'' in
      if \<not> path_exists w data_backup \<and> \<not> path_exists w apps_backup
      then (Inr False, logger_error ''No valid backup files found'' None w)
      else
     (case is_container_running w of
        (Inl e, w1) \<Rightarrow> (Inl e, w1)
      | (Inr was_running, w1) \<Rightarrow>
     (let w2 = (if was_running then snd (stop_container w1) else w1) in
      case (if path_exists w2 data_backup then run_check (restore_data_cmd data_backup) w2
            else (Inr (), w2)) of
        (Inl e, w3) \<Rightarrow> (Inl e, w3)
      | (Inr u, w3) \<Rightarrow>
     (case (if path_exists w3 apps_backup
            then (case makedirs (dirname WAYDROID_APPS_PATH) w3 of
                    (Inl e, w4) \<Rightarrow> (Inl e, w4)
                  | (Inr u, w4) \<Rightarrow> run_check (restore_apps_cmd apps_backup) w4)
            else (Inr (), w3)) of
        (Inl e, w5) \<Rightarrow> (Inl e, w5)
      | (Inr u, w5) \<Rightarrow>
          (Inr True, if was_running then snd (start_container w5) else w5)))))"

definition restore_finish :: "(exn + bool) \<times> world \<Rightarrow> bool \<times> world" where
  "restore_finish r =
     (case r of
        (Inl e, w) \<Rightarrow> (False, logger_error ''Failed to restore data: '' (Some e) w)
      | (Inr b, w) \<Rightarrow> (b, w))"

text \<open>The directories under \<^verbatim>\<open>BACKUP_PATH\<close>, by the list comprehension of \<^verbatim>\<open>restore_data\<close>.\<close>

definition backup_dirs :: "world \<Rightarrow> string list \<Rightarrow> string list" where
  "backup_dirs w names = filter (isdir w) (map (path_join BACKUP_PATH) names)"

text \<open>
  The argument is \<open>None\<close> for the default \<^verbatim>\<open>None\<close>; it and the empty string are the two
  values for which \<^verbatim>\<open>not backup_dir\<close> holds.
\<close>

definition restore_data :: "string option \<Rightarrow> world \<Rightarrow> bool \<times> world" where
  "restore_data backup_dir w =
     (case backup_dir of
        Some (c # cs) \<Rightarrow> restore_finish (restore_from (c # cs) w)
      | _ \<Rightarrow>
          (case listdir w BACKUP_PATH of
             None \<Rightarrow> restore_finish (Inl FileNotFoundError, w)
           | Some names \<Rightarrow>
               (case backup_dirs w names of
                  [] \<Rightarrow> (False, logger_error ''No backup found'' None w)
                | d # ds \<Rightarrow> restore_finish (restore_from (max_by (getmtime w) d ds) w))))"

section \<open>The bus service (class WaydroidDBusService)\<close>

text \<open>Emitting the signal \<^verbatim>\<open>ResourceUsageChanged\<close>.\<close>

definition emit_ResourceUsageChanged :: "real \<Rightarrow> real \<Rightarrow> real \<Rightarrow> world \<Rightarrow> world" where
  "emit_ResourceUsageChanged c r s w = w\<lparr>trace := trace w @ [ResourceUsageChanged c r s]\<rparr>"

text \<open>The \<^verbatim>\<open>try\<close> statement in the body of the loop of \<^verbatim>\<open>_resource_monitor_loop\<close>.\<close>

definition monitor_tick :: "world \<Rightarrow> world" where
  "monitor_tick w =
     (case is_container_running w of
        (Inl e, w1) \<Rightarrow> logger_error ''Error in resource monitor loop: '' (Some e) w1
      | (Inr False, w1) \<Rightarrow> w1
      | (Inr True, w1) \<Rightarrow>
          (case get_container_resource_usage w1 of
             (Inl e, w2) \<Rightarrow> logger_error ''Error in resource monitor loop: '' (Some e) w2
           | (Inr (cpu, ram, sto), w2) \<Rightarrow> emit_ResourceUsageChanged cpu ram sto w2))"

text \<open>One pass of the loop: the tick, then \<^verbatim>\<open>time.sleep(3)\<close>.\<close>

definition monitor_iteration :: "world \<Rightarrow> world" where
  "monitor_iteration w = sleep 3 (monitor_tick w)"

text \<open>
  The loop runs for as long as \<^verbatim>\<open>self.monitoring\<close> holds, which nothing in the module
  resets; the model runs it for a given number of passes at most.
\<close>

fun resource_monitor_loop :: "nat \<Rightarrow> world \<Rightarrow> world" where
  "resource_monitor_loop 0 w = w"
| "resource_monitor_loop (Suc n) w =
     (if monitoring w then resource_monitor_loop n (monitor_iteration w) else w)"


section \<open>Notions and states used in the statements\<close>

text \<open>A table of two samples, the older one inserted last.\<close>

definition example_rows :: "resource_row list" where
  "example_rows =
     [\<lparr>rowid = 1, timestamp = 10, cpu_usage = 0, ram_usage = 0, storage_usage = 0\<rparr>,
      \<lparr>rowid = 2, timestamp = 5, cpu_usage = 1, ram_usage = 2, storage_usage = 3\<rparr>]"

text \<open>The sample taken at second \<open>i\<close>, as the \<open>i\<close>-th row.\<close>

definition row_at :: "nat \<Rightarrow> resource_row" where
  "row_at i = \<lparr>rowid = i, timestamp = int i, cpu_usage = 0, ram_usage = 0, storage_usage = 0\<rparr>"

text \<open>A store that has been initialised and used.\<close>

definition example_db :: db where
  "example_db = \<lparr>settings_tbl = Some [(''auto_start'', ''0'')], app_visibility_tbl = Some [],
                  resource_logs_tbl = Some example_rows\<rparr>"


text \<open>The rows of a table, none when the table has not been created.\<close>

definition rows_of :: "'a list option \<Rightarrow> 'a list" where
  "rows_of t = (case t of None \<Rightarrow> [] | Some rows \<Rightarrow> rows)"

text \<open>
  A world in which every command succeeds with no output, no process runs and no directory
  exists; the worlds below change it where they differ.
\<close>

definition base_world :: world where
  "base_world =
     \<lparr>store = example_db, clock = 1700000000, strftime = (\<lambda>t. ''2023-11-14_22-13-20''),
      proc = (\<lambda>history argv. Exited 0 []), trace = [], logged = [],
      processes = [], cpu_count = Some 4, data_dir = None, apps_dir = None,
      listdir = (\<lambda>p. None), isdir = (\<lambda>p. False), getmtime = (\<lambda>p. 0),
      path_exists = (\<lambda>p. False), makedirs_ok = (\<lambda>p. True),
      connect_ok = (\<lambda>p. True), commit_ok = (\<lambda>p. True), monitoring = True\<rparr>"

definition no_waydroid_world :: world where
  "no_waydroid_world = base_world\<lparr>proc := (\<lambda>history argv. NotFound)\<rparr>"

definition failing_world :: world where
  "failing_world = base_world\<lparr>proc := (\<lambda>history argv. Exited 1 [])\<rparr>"

text \<open>A world in which the container runs, both directories exist and every command succeeds.\<close>

definition backup_ok_world :: world where
  "backup_ok_world =
     base_world
       \<lparr>proc := (\<lambda>history argv.
                   if argv = [''waydroid'', ''status''] then Exited 0 ''Session: RUNNING''
                   else Exited 0 []),
        data_dir := Some (DirNode (Some [])),
        apps_dir := Some []\<rparr>"

text \<open>
  The same world, except that the archive of the desktop entries (the \<^verbatim>\<open>tar\<close> invoked
  without \<^verbatim>\<open>sudo\<close>) exits with code 2.
\<close>

definition backup_fail_world :: world where
  "backup_fail_world =
     base_world
       \<lparr>proc := (\<lambda>history argv.
                   if argv = [''waydroid'', ''status''] then Exited 0 ''Session: RUNNING''
                   else if take 1 argv = [''tar''] then Exited 2 []
                   else Exited 0 []),
        data_dir := Some (DirNode (Some [])),
        apps_dir := Some []\<rparr>"

text \<open>A world whose backup directory exists and is empty.\<close>

definition empty_backups_world :: world where
  "empty_backups_world = base_world\<lparr>listdir := (\<lambda>p. if p = BACKUP_PATH then Some [] else None)\<rparr>"

text \<open>
  A world with two backup directories and a file beside them; the directory \<^verbatim>\<open>new\<close> is
  the one modified last, and no archive exists.
\<close>

definition stale_backups_world :: world where
  "stale_backups_world =
     base_world
       \<lparr>listdir := (\<lambda>p. if p = BACKUP_PATH then Some [''old'', ''new'', ''notes.txt''] else None),
        isdir := (\<lambda>p. p = path_join BACKUP_PATH ''old'' \<or> p = path_join BACKUP_PATH ''new''),
        getmtime := (\<lambda>p. if p = path_join BACKUP_PATH ''new'' then 200 else 100)\<rparr>"

text \<open>
  A world in which the container runs as one process named \<^verbatim>\<open>Waydroid\<close> using one
  processor of four and one mebibyte of memory, over a data directory of one gibibyte.
\<close>

definition running_world :: world where
  "running_world =
     base_world
       \<lparr>proc := (\<lambda>history argv.
                   if argv = [''waydroid'', ''status''] then Exited 0 ''Session: RUNNING''
                   else Exited 0 []),
        processes := [\<lparr>p_name = Some ''Waydroid'', p_cmdline = Some [],
                       p_cpu_percent = Some 100, p_rss = Some 1048576\<rparr>,
                      \<lparr>p_name = Some ''init'', p_cmdline = Some [''/sbin/init''],
                       p_cpu_percent = Some 1, p_rss = Some 4096\<rparr>],
        data_dir := Some (DirNode (Some [FileNode 1073741820, DirNode (Some [FileNode 4]), OtherNode]))\<rparr>"



text \<open>
  A world with one desktop entry for the package \<^verbatim>\<open>com.foo\<close>, whose last line has no line
  feed and which has no \<^verbatim>\<open>NoDisplay\<close> line.
\<close>

definition unterminated_entry_world :: world where
  "unterminated_entry_world =
     base_world
       \<lparr>apps_dir :=
          Some [(''waydroid.com.foo.desktop'',
                 \<lparr>content = Some (''[Desktop Entry]'' @ [newline] @ ''Name=Foo'' @ [newline] @
                                  ''Exec=waydroid app launch com.foo''),
                  writable = True\<rparr>)]\<rparr>"

text \<open>A line that ends with its line feed and has no other.\<close>

definition proper_line :: "string \<Rightarrow> bool" where
  "proper_line l \<longleftrightarrow> l \<noteq> [] \<and> last l = newline \<and> newline \<notin> set (butlast l)"

text \<open>The same desktop entry with the line feed at its end.\<close>

definition terminated_entry_world :: world where
  "terminated_entry_world =
     base_world
       \<lparr>apps_dir :=
          Some [(''waydroid.com.foo.desktop'',
                 \<lparr>content = Some (''[Desktop Entry]'' @ [newline] @ ''Name=Foo'' @ [newline] @
                                  ''Exec=waydroid app launch com.foo'' @ [newline]),
                  writable = True\<rparr>)]\<rparr>"

text \<open>A desktop entry after the second loop of \<^verbatim>\<open>set_app_visibility\<close> has rewritten it.\<close>

definition rewritten :: "bool \<Rightarrow> dfile \<Rightarrow> dfile" where
  "rewritten visible f =
     (case content f of
        None \<Rightarrow> f
      | Some text \<Rightarrow> f\<lparr>content := Some (rewrite_lines visible (readlines text))\<rparr>)"

text \<open>A store whose table of samples is full: the samples of the seconds 1 to 100.\<close>

definition full_db :: db where
  "full_db = \<lparr>settings_tbl = Some [], app_visibility_tbl = Some [],
               resource_logs_tbl = Some (map row_at [1..<101])\<rparr>"


section \<open>Sample retention\<close>

lemma fold_max_ge_init: "(a::nat) \<le> fold max xs a"
proof (induction xs arbitrary: a)
  case Nil
  show ?case by simp
next
  case (Cons x xs)
  have "a \<le> max x a" by simp
  also have "\<dots> \<le> fold max xs (max x a)" by (rule Cons.IH)
  finally show ?case by simp
qed

lemma fold_max_ge_elem: "x \<in> set xs \<Longrightarrow> (x::nat) \<le> fold max xs a"
proof (induction xs arbitrary: a)
  case Nil
  then show ?case by simp
next
  case (Cons y ys)
  show ?case
  proof (cases "x = y")
    case True
    have "x \<le> max y a" using True by simp
    also have "\<dots> \<le> fold max ys (max y a)" by (rule fold_max_ge_init)
    finally show ?thesis by simp
  next
    case False
    with Cons.prems have "x \<in> set ys" by simp
    then show ?thesis using Cons.IH by simp
  qed
qed

lemma next_rowid_fresh: "r \<in> set rows \<Longrightarrow> rowid r < next_rowid rows"
  unfolding next_rowid_def using fold_max_ge_elem [of "rowid r" "map rowid rows" 0] by auto

lemma distinct_rowid_snoc:
  assumes "distinct (map rowid rows)"
  shows "distinct (map rowid (rows @ [new_row now c r s rows]))"
proof -
  have "rowid (new_row now c r s rows) \<notin> rowid ` set rows"
  proof
    assume "rowid (new_row now c r s rows) \<in> rowid ` set rows"
    then obtain x where x: "x \<in> set rows" and "rowid x = next_rowid rows"
      by (auto simp: new_row_def)
    with next_rowid_fresh [OF x] show False by simp
  qed
  with assms show ?thesis by simp
qed

lemma set_prune_logs:
  assumes "distinct (map rowid rows)"
  shows "set (prune_logs rows) = set (take 100 (sort_key (\<lambda>r. - timestamp r) rows))"
proof -
  let ?top = "take 100 (sort_key (\<lambda>r. - timestamp r) rows)"
  have sub: "set ?top \<subseteq> set rows"
    using set_take_subset [of 100 "sort_key (\<lambda>r. - timestamp r) rows"] by simp
  have inj: "inj_on rowid (set rows)"
    using assms by (simp add: distinct_map)
  show ?thesis
  proof
    show "set (prune_logs rows) \<subseteq> set ?top"
    proof
      fix x assume "x \<in> set (prune_logs rows)"
      then have x: "x \<in> set rows" and "rowid x \<in> rowid ` set ?top"
        by (auto simp: prune_logs_def newest_rowids_def)
      then obtain y where y: "y \<in> set ?top" and "rowid x = rowid y" by auto
      with sub x inj have "x = y" by (auto dest: inj_onD)
      with y show "x \<in> set ?top" by simp
    qed
  next
    show "set ?top \<subseteq> set (prune_logs rows)"
      using sub by (auto simp: prune_logs_def newest_rowids_def)
  qed
qed

lemma length_prune_logs:
  assumes "distinct (map rowid rows)"
  shows "length (prune_logs rows) = min 100 (length rows)"
proof -
  let ?top = "take 100 (sort_key (\<lambda>r. - timestamp r) rows)"
  have d: "distinct rows" using assms by (simp add: distinct_map)
  then have "distinct (prune_logs rows)" by (simp add: prune_logs_def)
  then have "length (prune_logs rows) = card (set (prune_logs rows))"
    by (simp add: distinct_card)
  also have "\<dots> = card (set ?top)" using assms by (simp add: set_prune_logs)
  also have "\<dots> = length ?top" using d by (simp add: distinct_card)
  also have "\<dots> = min 100 (length rows)" by simp
  finally show ?thesis .
qed

lemma sorted_take_drop:
  assumes "sorted (map f xs)" and "a \<in> set (take n xs)" and "b \<in> set (drop n xs)"
  shows "f a \<le> f b"
proof -
  have "sorted (map f (take n xs @ drop n xs))" using assms(1) by simp
  then have "\<forall>x\<in>set (take n xs). \<forall>y\<in>set (drop n xs). f x \<le> f y"
    unfolding map_append sorted_append by auto
  with assms(2,3) show ?thesis by blast
qed

lemma evicted_not_newer:
  assumes dist: "distinct (map rowid rows)"
    and kept: "kept \<in> set (prune_logs rows)"
    and gone: "gone \<in> set rows" "gone \<notin> set (prune_logs rows)"
  shows "timestamp gone \<le> timestamp kept"
proof -
  let ?s = "sort_key (\<lambda>r. - timestamp r) rows"
  have k: "kept \<in> set (take 100 ?s)" using kept dist by (simp add: set_prune_logs)
  have "gone \<notin> set (take 100 ?s)" using gone(2) dist by (simp add: set_prune_logs)
  moreover have "gone \<in> set (take 100 ?s @ drop 100 ?s)" using gone(1) by simp
  ultimately have g: "gone \<in> set (drop 100 ?s)" unfolding set_append by blast
  have "sorted (map (\<lambda>r. - timestamp r) ?s)" by simp
  from sorted_take_drop [OF this k g] show ?thesis by simp
qed

lemma prune_logs_is_filter:
  "prune_logs rows = filter (\<lambda>x. x \<in> set (prune_logs rows)) rows"
  unfolding prune_logs_def by (rule filter_cong) auto

lemma distinct_rowid_prune: "distinct (map rowid rows) \<Longrightarrow> distinct (map rowid (prune_logs rows))"
  unfolding prune_logs_def by (rule distinct_map_filter)

lemma prune_full_table:
  "prune_logs (map row_at [1..<101] @
               [\<lparr>rowid = 101, timestamp = 101, cpu_usage = 25, ram_usage = 512, storage_usage = 3\<rparr>]) =
     map row_at [2..<101] @
       [\<lparr>rowid = 101, timestamp = 101, cpu_usage = 25, ram_usage = 512, storage_usage = 3\<rparr>]"
  by code_simp

lemma next_rowid_full: "next_rowid (map row_at [1..<101]) = 101"
  by code_simp

text \<open>
  Claim C1. For every state of the \<^verbatim>\<open>resource_logs\<close> table (with the row identifiers
  distinct, as SQLite keeps them) and every call of \<^verbatim>\<open>log_resource_usage\<close>: the call
  succeeds; the row inserted carries the time of the call and the three figures given;
  the rows left are rows of the table before the call or the row inserted, unchanged and
  in their order; there are exactly \<open>min 100 (n + 1)\<close> of them, where \<open>n\<close> is the number
  of rows before; no row left has a smaller timestamp than a row that was deleted, so the
  rows left are the newest by timestamp; and the row inserted is among them whenever the
  time of the call is later than every timestamp in the table.
\<close>

theorem log_resource_usage_keeps_newest:
  assumes tbl: "resource_logs_tbl d = Some rows" and dist: "distinct (map rowid rows)"
  shows "\<exists>rows'. log_resource_usage now c r s d = Inr (d\<lparr>resource_logs_tbl := Some rows'\<rparr>)
           \<and> rows' = filter (\<lambda>x. x \<in> set rows')
                       (rows @ [\<lparr>rowid = next_rowid rows, timestamp = now, cpu_usage = c,
                                 ram_usage = r, storage_usage = s\<rparr>])
           \<and> length rows' = min 100 (Suc (length rows))
           \<and> (\<forall>kept \<in> set rows'.
                 \<forall>gone \<in> set (rows @ [\<lparr>rowid = next_rowid rows, timestamp = now, cpu_usage = c,
                                          ram_usage = r, storage_usage = s\<rparr>]) - set rows'.
                  timestamp gone \<le> timestamp kept)
           \<and> distinct (map rowid rows')
           \<and> ((\<forall>old \<in> set rows. timestamp old < now) \<longrightarrow>
                 \<lparr>rowid = next_rowid rows, timestamp = now, cpu_usage = c,
                  ram_usage = r, storage_usage = s\<rparr> \<in> set rows')"
proof -
  let ?new = "\<lparr>rowid = next_rowid rows, timestamp = now, cpu_usage = c,
               ram_usage = r, storage_usage = s\<rparr>"
  let ?all = "rows @ [?new]"
  have nr: "new_row now c r s rows = ?new" by (simp add: new_row_def)
  have d1: "distinct (map rowid ?all)" using distinct_rowid_snoc [OF dist, of now c r s]
    by (simp add: nr)
  have a: "log_resource_usage now c r s d = Inr (d\<lparr>resource_logs_tbl := Some (prune_logs ?all)\<rparr>)"
    using tbl by (simp add: log_resource_usage_def nr)
  have b: "prune_logs ?all = filter (\<lambda>x. x \<in> set (prune_logs ?all)) ?all"
    by (rule prune_logs_is_filter)
  have c: "length (prune_logs ?all) = min 100 (Suc (length rows))"
    using length_prune_logs [OF d1] by simp
  have e: "\<forall>kept \<in> set (prune_logs ?all). \<forall>gone \<in> set ?all - set (prune_logs ?all).
              timestamp gone \<le> timestamp kept"
    using evicted_not_newer [OF d1] by blast
  have f: "distinct (map rowid (prune_logs ?all))" using d1 by (rule distinct_rowid_prune)
  have g: "?new \<in> set (prune_logs ?all)" if newest: "\<forall>old \<in> set rows. timestamp old < now"
  proof (rule ccontr)
    assume out: "?new \<notin> set (prune_logs ?all)"
    from c have "prune_logs ?all \<noteq> []" by auto
    then obtain kept where k: "kept \<in> set (prune_logs ?all)"
      by (cases "prune_logs ?all") auto
    from k b have "kept \<in> set ?all" by (metis filter_is_subset subsetD)
    with k out have kr: "kept \<in> set rows" by auto
    have "?new \<in> set ?all - set (prune_logs ?all)" using out by simp
    with e k have "timestamp ?new \<le> timestamp kept" by blast
    then have "now \<le> timestamp kept" by simp
    with newest kr show False by auto
  qed
  from a b c e f g show ?thesis by blast
qed

text \<open>
  The 101st sample: the table holds the samples of the seconds 1 to 100 and a sample is
  logged at second 101. The sample of second 1 is deleted, the new one is kept.
\<close>

theorem log_resource_usage_keeps_newest_witness:
  "resource_logs_tbl full_db = Some (map row_at [1..<101]) \<and>
   distinct (map rowid (map row_at [1..<101])) \<and>
   length (map row_at [1..<101]) = 100 \<and>
   list_all (\<lambda>old. timestamp old < 101) (map row_at [1..<101]) \<and>
   log_resource_usage 101 25 512 3 full_db =
     Inr (full_db\<lparr>resource_logs_tbl :=
            Some (map row_at [2..<101] @
                  [\<lparr>rowid = 101, timestamp = 101, cpu_usage = 25, ram_usage = 512,
                    storage_usage = 3\<rparr>])\<rparr>) \<and>
   length (map row_at [2..<101] @
           [\<lparr>rowid = 101, timestamp = 101, cpu_usage = 25, ram_usage = 512,
             storage_usage = 3\<rparr>]) = 100 \<and>
   row_at 1 \<notin> set (map row_at [2..<101] @
           [\<lparr>rowid = 101, timestamp = 101, cpu_usage = 25, ram_usage = 512,
             storage_usage = 3\<rparr>])"
proof -
  let ?rows = "map row_at [1..<101]"
  let ?new = "\<lparr>rowid = 101, timestamp = 101, cpu_usage = 25, ram_usage = 512,
               storage_usage = 3\<rparr>"
  let ?kept = "map row_at [2..<101] @ [?new]"
  have h1: "resource_logs_tbl full_db = Some ?rows" by (simp add: full_db_def)
  have h2: "distinct (map rowid ?rows)" by (simp add: o_def row_at_def)
  have h3: "length ?rows = 100" by simp
  have h4: "\<forall>old \<in> set ?rows. timestamp old < 101" by (auto simp: row_at_def)
  have h5: "list_all (\<lambda>old. timestamp old < 101) ?rows" using h4 by (simp add: list_all_iff)
  from log_resource_usage_keeps_newest [OF h1 h2, of 101 25 512 3]
  obtain rows' where
    r: "log_resource_usage 101 25 512 3 full_db = Inr (full_db\<lparr>resource_logs_tbl := Some rows'\<rparr>)"
    and l: "length rows' = min 100 (Suc (length ?rows))"
    and n: "(\<forall>old \<in> set ?rows. timestamp old < 101) \<longrightarrow>
            \<lparr>rowid = next_rowid ?rows, timestamp = 101, cpu_usage = 25, ram_usage = 512,
             storage_usage = 3\<rparr> \<in> set rows'"
    by blast
  have ev: "log_resource_usage 101 25 512 3 full_db =
      Inr (full_db\<lparr>resource_logs_tbl := Some ?kept\<rparr>)"
  proof -
    have "log_resource_usage 101 25 512 3 full_db =
      Inr (full_db\<lparr>resource_logs_tbl :=
             Some (prune_logs (?rows @ [new_row 101 25 512 3 ?rows]))\<rparr>)"
      by (simp only: log_resource_usage_def h1 option.case)
    moreover have "new_row 101 25 512 3 ?rows = ?new"
      by (simp only: new_row_def next_rowid_full)
    ultimately show ?thesis by (simp only: prune_full_table)
  qed
  from r ev have "resource_logs_tbl (full_db\<lparr>resource_logs_tbl := Some rows'\<rparr>) =
                  resource_logs_tbl (full_db\<lparr>resource_logs_tbl := Some ?kept\<rparr>)" by simp
  then have eq: "rows' = ?kept" by simp
  from l eq h3 have l': "length ?kept = 100" by simp
  have out: "row_at 1 \<notin> set ?kept" by (auto simp: row_at_def)
  from h1 h2 h3 h5 ev l' out show ?thesis by blast
qed

section \<open>Store initialisation\<close>

lemma fold_insert_or_ignore:
  "distinct (map fst ds) \<Longrightarrow>
   fold (\<lambda>(k, v). insert_or_ignore k v) ds rows = rows @ filter (\<lambda>(k, v). k \<notin> fst ` set rows) ds"
proof (induction ds arbitrary: rows)
  case Nil
  show ?case by simp
next
  case (Cons p ds)
  obtain k v where p: "p = (k, v)" by (cases p)
  from Cons.prems p have k: "k \<notin> fst ` set ds" and dd: "distinct (map fst ds)" by auto
  show ?case
  proof (cases "k \<in> fst ` set rows")
    case True
    then show ?thesis using Cons.IH [OF dd, of rows] p by (simp add: insert_or_ignore_def)
  next
    case False
    have "filter (\<lambda>(k', v'). k' \<notin> fst ` set (rows @ [(k, v)])) ds
        = filter (\<lambda>(k', v'). k' \<notin> fst ` set rows) ds"
      using k by (intro filter_cong) (auto simp: image_iff)
    then show ?thesis using False Cons.IH [OF dd, of "rows @ [(k, v)]"] p
      by (simp add: insert_or_ignore_def)
  qed
qed

lemma distinct_default_keys: "distinct (map fst (default_settings now))"
  by (simp add: default_settings_def)

lemma default_keys: "fst ` set (default_settings now) =
   {''auto_start'', ''auto_update'', ''last_update_check'', ''last_backup_time''}"
  by (auto simp: default_settings_def)

lemma settings_ensure:
  "settings_tbl (ensure_db_statements now d) =
     Some (rows_of (settings_tbl d) @
           filter (\<lambda>(k, v). k \<notin> fst ` set (rows_of (settings_tbl d))) (default_settings now))"
  by (simp add: ensure_db_statements_def Let_def create_table_if_not_exists_def rows_of_def
      fold_insert_or_ignore [OF distinct_default_keys] split: option.splits)











lemma makedirs_existing: "p \<noteq> [] \<Longrightarrow> path_exists w p \<Longrightarrow> isdir w p \<Longrightarrow> makedirs p w = (Inr (), w)"
  by (simp add: makedirs_def)





text \<open>
  A path with no directory part, such as \<^verbatim>\<open>settings.db\<close>: \<^verbatim>\<open>os.makedirs\<close> is given the
  empty path and raises, on every call.
\<close>

lemma ensure_db_exists_bare_file_name:
  "dirname ''settings.db'' = [] \<and>
   ensure_db_exists ''settings.db'' w = (Inl FileNotFoundError, w)"
  by (simp add: ensure_db_exists_def makedirs_def dirname_def)




section \<open>Settings\<close>

lemma map_of_insert_or_replace_same: "map_of (insert_or_replace k v rows) k = Some v"
proof -
  have "k \<notin> fst ` set (filter (\<lambda>r. fst r \<noteq> k) rows)" by auto
  then have "map_of (filter (\<lambda>r. fst r \<noteq> k) rows) k = None" by (simp add: map_of_eq_None_iff)
  then show ?thesis by (simp add: insert_or_replace_def map_add_def)
qed

lemma map_of_filter_other:
  "k' \<noteq> k \<Longrightarrow> map_of (filter (\<lambda>r. fst r \<noteq> k) rows) k' = map_of rows k'"
  by (induction rows) auto

lemma map_of_insert_or_replace_other:
  "k' \<noteq> k \<Longrightarrow> map_of (insert_or_replace k v rows) k' = map_of rows k'"
  by (simp add: insert_or_replace_def map_add_def map_of_filter_other split: option.splits)

lemma insert_or_replace_twice:
  "insert_or_replace k v (insert_or_replace k v rows) = insert_or_replace k v rows"
  by (simp add: insert_or_replace_def)

lemma distinct_insert_or_replace:
  assumes "distinct (map fst rows)"
  shows "distinct (map fst (insert_or_replace k v rows))"
proof -
  have "distinct (map fst (filter (\<lambda>r. fst r \<noteq> k) rows))"
    using assms by (rule distinct_map_filter)
  moreover have "k \<notin> fst ` set (filter (\<lambda>r. fst r \<noteq> k) rows)" by auto
  ultimately show ?thesis by (simp add: insert_or_replace_def)
qed

text \<open>
  Claim C9. On a store whose \<^verbatim>\<open>settings\<close> table exists, for every key and every string
  value: \<^verbatim>\<open>set_setting\<close> succeeds and \<^verbatim>\<open>get_setting\<close> of the key then returns the
  value; setting the same value again leaves the store as it is (idempotent); every other
  key reads as before and distinct keys stay distinct (an upsert); and \<^verbatim>\<open>get_setting\<close>
  of a key that has no row returns \<^verbatim>\<open>None\<close>.
\<close>

theorem set_setting_then_get_setting:
  assumes "settings_tbl d = Some rows"
  shows "\<exists>d'. set_setting k (PyStr v) d = Inr d'
           \<and> get_setting k d' = Inr (Some v)
           \<and> set_setting k (PyStr v) d' = Inr d'
           \<and> (k' \<noteq> k \<longrightarrow> get_setting k' d' = get_setting k' d)
           \<and> (distinct (map fst rows) \<longrightarrow> distinct (map fst (rows_of (settings_tbl d'))))
           \<and> (k'' \<notin> fst ` set rows \<longrightarrow> get_setting k'' d = Inr None)"
proof -
  let ?d' = "d\<lparr>settings_tbl := Some (insert_or_replace k v rows)\<rparr>"
  have a: "set_setting k (PyStr v) d = Inr ?d'" using assms by (simp add: set_setting_def)
  have b: "get_setting k ?d' = Inr (Some v)"
    by (simp add: get_setting_def map_of_insert_or_replace_same)
  have c: "set_setting k (PyStr v) ?d' = Inr ?d'"
    by (simp add: set_setting_def insert_or_replace_twice)
  have e: "k' \<noteq> k \<longrightarrow> get_setting k' ?d' = get_setting k' d"
    using assms by (simp add: get_setting_def map_of_insert_or_replace_other)
  have f: "distinct (map fst rows) \<longrightarrow> distinct (map fst (rows_of (settings_tbl ?d')))"
    by (simp add: rows_of_def distinct_insert_or_replace)
  have g: "k'' \<notin> fst ` set rows \<longrightarrow> get_setting k'' d = Inr None"
    using assms by (simp add: get_setting_def map_of_eq_None_iff)
  from a b c e f g show ?thesis by blast
qed

theorem set_setting_then_get_setting_witness:
  "settings_tbl (ensure_db_statements 1700000000 empty_db) = Some (default_settings 1700000000) \<and>
   ''auto_update'' \<noteq> ''auto_start'' \<and>
   distinct (map fst (default_settings 1700000000)) \<and>
   ''colour'' \<notin> fst ` set (default_settings 1700000000) \<and>
   (\<exists>d'. set_setting ''auto_start'' (PyStr ''1'') (ensure_db_statements 1700000000 empty_db) = Inr d'
       \<and> get_setting ''auto_start'' d' = Inr (Some ''1'')
       \<and> set_setting ''auto_start'' (PyStr ''1'') d' = Inr d'
       \<and> get_setting ''auto_update'' d' = Inr (Some ''0'')
       \<and> distinct (map fst (rows_of (settings_tbl d')))) \<and>
   get_setting ''colour'' (ensure_db_statements 1700000000 empty_db) = Inr None"
proof -
  let ?fresh = "ensure_db_statements 1700000000 empty_db"
  have h1: "settings_tbl ?fresh = Some (default_settings 1700000000)"
    by (simp add: settings_ensure rows_of_def empty_db_def)
  have h2: "''auto_update'' \<noteq> ''auto_start''" by simp
  have h3: "distinct (map fst (default_settings 1700000000))" by (rule distinct_default_keys)
  have h4: "''colour'' \<notin> fst ` set (default_settings 1700000000)" by (simp add: default_keys)
  have h5: "get_setting ''auto_update'' ?fresh = Inr (Some ''0'')"
    by (simp add: get_setting_def h1 default_settings_def)
  from set_setting_then_get_setting [OF h1, of "''auto_start''" "''1''" "''auto_update''" "''colour''"]
    h1 h2 h3 h4 h5 show ?thesis by auto
qed

section \<open>Failures of the external commands\<close>

lemma run_check_cases:
  "run_check argv w =
     (case proc w (trace w) argv of
        NotFound \<Rightarrow> (Inl FileNotFoundError, executed argv w)
      | NotExecutable \<Rightarrow> (Inl PermissionError, executed argv w)
      | Exited code out \<Rightarrow> (if code = 0 then Inr () else Inl (CalledProcessError code), executed argv w))"
  by (simp add: run_check_def spawn_def split: outcome.splits)

lemma popen_cases:
  "popen argv w =
     (case proc w (trace w) argv of
        NotFound \<Rightarrow> (Inl FileNotFoundError, executed argv w)
      | NotExecutable \<Rightarrow> (Inl PermissionError, executed argv w)
      | Exited code out \<Rightarrow> (Inr (), executed argv w))"
  by (simp add: popen_def spawn_def split: outcome.splits)

lemma check_output_cases:
  "check_output argv w =
     (case proc w (trace w) argv of
        NotFound \<Rightarrow> (Inl FileNotFoundError, executed argv w)
      | NotExecutable \<Rightarrow> (Inl PermissionError, executed argv w)
      | Exited code out \<Rightarrow> (if code = 0 then Inr out else Inl (CalledProcessError code), executed argv w))"
  by (simp add: check_output_def spawn_def split: outcome.splits)

lemma stop_container_failure:
  "proc w (trace w) [''waydroid'', ''session'', ''stop''] = NotFound \<Longrightarrow>
     stop_container w = (False, logger_error ''Failed to stop container: '' (Some FileNotFoundError)
                                  (executed [''waydroid'', ''session'', ''stop''] w))"
  "proc w (trace w) [''waydroid'', ''session'', ''stop''] = Exited code out \<Longrightarrow> code \<noteq> 0 \<Longrightarrow>
     stop_container w = (False, logger_error ''Failed to stop container: '' (Some (CalledProcessError code))
                                  (executed [''waydroid'', ''session'', ''stop''] w))"
  by (simp_all add: stop_container_def run_check_cases)

lemma freeze_container_failure:
  "proc w (trace w) [''waydroid'', ''container'', ''freeze''] = NotFound \<Longrightarrow>
     freeze_container w = (False, logger_error ''Failed to freeze container: '' (Some FileNotFoundError)
                                  (executed [''waydroid'', ''container'', ''freeze''] w))"
  "proc w (trace w) [''waydroid'', ''container'', ''freeze''] = Exited code out \<Longrightarrow> code \<noteq> 0 \<Longrightarrow>
     freeze_container w = (False, logger_error ''Failed to freeze container: '' (Some (CalledProcessError code))
                                  (executed [''waydroid'', ''container'', ''freeze''] w))"
  by (simp_all add: freeze_container_def run_check_cases)

lemma unfreeze_container_failure:
  "proc w (trace w) [''waydroid'', ''container'', ''unfreeze''] = NotFound \<Longrightarrow>
     unfreeze_container w = (False, logger_error ''Failed to unfreeze container: '' (Some FileNotFoundError)
                                  (executed [''waydroid'', ''container'', ''unfreeze''] w))"
  "proc w (trace w) [''waydroid'', ''container'', ''unfreeze''] = Exited code out \<Longrightarrow> code \<noteq> 0 \<Longrightarrow>
     unfreeze_container w = (False, logger_error ''Failed to unfreeze container: '' (Some (CalledProcessError code))
                                  (executed [''waydroid'', ''container'', ''unfreeze''] w))"
  by (simp_all add: unfreeze_container_def run_check_cases)

lemma start_container_cases:
  "proc w (trace w) [''waydroid'', ''session'', ''start''] = NotFound \<Longrightarrow>
     start_container w = (False, logger_error ''Failed to start container: '' (Some FileNotFoundError)
                                  (executed [''waydroid'', ''session'', ''start''] w))"
  "proc w (trace w) [''waydroid'', ''session'', ''start''] = Exited code out \<Longrightarrow>
     start_container w = (True, executed [''waydroid'', ''session'', ''start''] w)"
  by (simp_all add: start_container_def popen_cases)

lemma is_container_running_cases:
  "proc w (trace w) [''waydroid'', ''status''] = NotFound \<Longrightarrow>
     is_container_running w =
       (Inr False, logger_error ''Waydroid command not found. Is Waydroid installed?'' None
                     (executed [''waydroid'', ''status''] w))"
  "proc w (trace w) [''waydroid'', ''status''] = Exited code out \<Longrightarrow> code \<noteq> 0 \<Longrightarrow>
     is_container_running w = (Inr False, executed [''waydroid'', ''status''] w)"
  "proc w (trace w) [''waydroid'', ''status''] = Exited 0 out \<Longrightarrow>
     is_container_running w = (Inr (contains ''RUNNING'' out), executed [''waydroid'', ''status''] w)"
  "proc w (trace w) [''waydroid'', ''status''] = NotExecutable \<Longrightarrow>
     is_container_running w = (Inl PermissionError, executed [''waydroid'', ''status''] w)"
  by (simp_all add: is_container_running_def check_output_cases)

text \<open>
  Claim C5, as amended. When the binary is missing, \<^verbatim>\<open>stop_container\<close>,
  \<^verbatim>\<open>freeze_container\<close>, \<^verbatim>\<open>unfreeze_container\<close> and \<^verbatim>\<open>start_container\<close> return
  \<^verbatim>\<open>False\<close> and \<^verbatim>\<open>is_container_running\<close> returns \<^verbatim>\<open>False\<close>, each with one log line.
  When the command exits with a code other than 0, \<^verbatim>\<open>stop_container\<close>,
  \<^verbatim>\<open>freeze_container\<close> and \<^verbatim>\<open>unfreeze_container\<close> return \<^verbatim>\<open>False\<close> with one log line;
  \<^verbatim>\<open>is_container_running\<close> returns \<^verbatim>\<open>False\<close> and logs nothing; \<^verbatim>\<open>start_container\<close>
  does not wait for the command and returns \<^verbatim>\<open>True\<close>, logging nothing. In all these cases
  the result is a value: no exception leaves the operation.
\<close>

theorem lifecycle_failures_reported:
  assumes "code \<noteq> 0"
  shows
  "(proc w (trace w) [''waydroid'', ''session'', ''stop''] = NotFound \<longrightarrow>
      stop_container w =
        (False, logger_error ''Failed to stop container: '' (Some FileNotFoundError)
                  (executed [''waydroid'', ''session'', ''stop''] w))) \<and>
   (proc w (trace w) [''waydroid'', ''session'', ''stop''] = Exited code out \<longrightarrow>
      stop_container w =
        (False, logger_error ''Failed to stop container: '' (Some (CalledProcessError code))
                  (executed [''waydroid'', ''session'', ''stop''] w))) \<and>
   (proc w (trace w) [''waydroid'', ''container'', ''freeze''] = NotFound \<longrightarrow>
      freeze_container w =
        (False, logger_error ''Failed to freeze container: '' (Some FileNotFoundError)
                  (executed [''waydroid'', ''container'', ''freeze''] w))) \<and>
   (proc w (trace w) [''waydroid'', ''container'', ''freeze''] = Exited code out \<longrightarrow>
      freeze_container w =
        (False, logger_error ''Failed to freeze container: '' (Some (CalledProcessError code))
                  (executed [''waydroid'', ''container'', ''freeze''] w))) \<and>
   (proc w (trace w) [''waydroid'', ''container'', ''unfreeze''] = NotFound \<longrightarrow>
      unfreeze_container w =
        (False, logger_error ''Failed to unfreeze container: '' (Some FileNotFoundError)
                  (executed [''waydroid'', ''container'', ''unfreeze''] w))) \<and>
   (proc w (trace w) [''waydroid'', ''container'', ''unfreeze''] = Exited code out \<longrightarrow>
      unfreeze_container w =
        (False, logger_error ''Failed to unfreeze container: '' (Some (CalledProcessError code))
                  (executed [''waydroid'', ''container'', ''unfreeze''] w))) \<and>
   (proc w (trace w) [''waydroid'', ''session'', ''start''] = NotFound \<longrightarrow>
      start_container w =
        (False, logger_error ''Failed to start container: '' (Some FileNotFoundError)
                  (executed [''waydroid'', ''session'', ''start''] w))) \<and>
   (proc w (trace w) [''waydroid'', ''session'', ''start''] = Exited code out \<longrightarrow>
      start_container w = (True, executed [''waydroid'', ''session'', ''start''] w)) \<and>
   (proc w (trace w) [''waydroid'', ''status''] = NotFound \<longrightarrow>
      is_container_running w =
        (Inr False, logger_error ''Waydroid command not found. Is Waydroid installed?'' None
                      (executed [''waydroid'', ''status''] w))) \<and>
   (proc w (trace w) [''waydroid'', ''status''] = Exited code out \<longrightarrow>
      is_container_running w = (Inr False, executed [''waydroid'', ''status''] w))"
  using assms
  by (simp add: stop_container_failure freeze_container_failure unfreeze_container_failure
      start_container_cases is_container_running_cases)

theorem lifecycle_failures_reported_witness:
  "(1::int) \<noteq> 0 \<and>
   proc no_waydroid_world (trace no_waydroid_world) [''waydroid'', ''session'', ''stop''] = NotFound \<and>
   proc failing_world (trace failing_world) [''waydroid'', ''session'', ''start''] = Exited 1 [] \<and>
   stop_container no_waydroid_world =
     (False, no_waydroid_world
               \<lparr>trace := [Exec [''waydroid'', ''session'', ''stop'']],
                logged := [(''Failed to stop container: '', Some FileNotFoundError)]\<rparr>) \<and>
   freeze_container failing_world =
     (False, failing_world
               \<lparr>trace := [Exec [''waydroid'', ''container'', ''freeze'']],
                logged := [(''Failed to freeze container: '', Some (CalledProcessError 1))]\<rparr>) \<and>
   start_container no_waydroid_world =
     (False, no_waydroid_world
               \<lparr>trace := [Exec [''waydroid'', ''session'', ''start'']],
                logged := [(''Failed to start container: '', Some FileNotFoundError)]\<rparr>) \<and>
   start_container failing_world =
     (True, failing_world\<lparr>trace := [Exec [''waydroid'', ''session'', ''start'']]\<rparr>) \<and>
   is_container_running no_waydroid_world =
     (Inr False, no_waydroid_world
               \<lparr>trace := [Exec [''waydroid'', ''status'']],
                logged := [(''Waydroid command not found. Is Waydroid installed?'', None)]\<rparr>) \<and>
   is_container_running failing_world =
     (Inr False, failing_world\<lparr>trace := [Exec [''waydroid'', ''status'']]\<rparr>)"
proof -
  have p1: "proc no_waydroid_world history argv = NotFound" for history argv
    by (simp add: no_waydroid_world_def base_world_def)
  have p2: "proc failing_world history argv = Exited 1 []" for history argv
    by (simp add: failing_world_def base_world_def)
  have t1: "trace no_waydroid_world = []" "logged no_waydroid_world = []"
    by (simp_all add: no_waydroid_world_def base_world_def)
  have t2: "trace failing_world = []" "logged failing_world = []"
    by (simp_all add: failing_world_def base_world_def)
  have one: "(1::int) \<noteq> 0" by simp
  from lifecycle_failures_reported [OF one, of no_waydroid_world "[]"]
       lifecycle_failures_reported [OF one, of failing_world "[]"]
  show ?thesis
    by (simp add: p1 p2 t1 t2 logger_error_def executed_def)
qed

text \<open>
  Claim C5 as it is written fails where every command exits with code 1:
  \<^verbatim>\<open>start_container\<close> returns \<^verbatim>\<open>True\<close> and logs nothing, and \<^verbatim>\<open>is_container_running\<close>
  returns \<^verbatim>\<open>False\<close> without a log line.
\<close>

theorem nonzero_exit_unreported_counterexample:
  "proc failing_world (trace failing_world) [''waydroid'', ''session'', ''start''] = Exited 1 [] \<and>
   fst (start_container failing_world) = True \<and>
   logged (snd (start_container failing_world)) = logged failing_world \<and>
   proc failing_world (trace failing_world) [''waydroid'', ''status''] = Exited 1 [] \<and>
   fst (is_container_running failing_world) = Inr False \<and>
   logged (snd (is_container_running failing_world)) = logged failing_world"
  by (simp add: failing_world_def base_world_def start_container_def popen_def spawn_def
      executed_def is_container_running_def check_output_def)

section \<open>Backup\<close>

lemma path_join_nonempty: "b \<noteq> [] \<Longrightarrow> path_join a b \<noteq> []"
  by (auto simp: path_join_def)

lemma BACKUP_PATH_nonempty: "BACKUP_PATH \<noteq> []"
  by (simp add: BACKUP_PATH_def)

text \<open>The paths that the archive commands are given.\<close>

lemma module_paths:
  "dirname WAYDROID_DATA_PATH = ''/var/lib''"
  "basename WAYDROID_DATA_PATH = ''waydroid''"
  "dirname WAYDROID_APPS_PATH = ''~/.local/share/applications''"
  "basename WAYDROID_APPS_PATH = ''waydroid''"
  "path_join BACKUP_PATH ''waydroid_backup_2023-11-14_22-13-20'' =
     ''~/Documents/WaydroidBackups/waydroid_backup_2023-11-14_22-13-20''"
  by (simp_all add: dirname_def basename_def path_join_def WAYDROID_DATA_PATH_def
      WAYDROID_APPS_PATH_def BACKUP_PATH_def startswith_def endswith_def)

text \<open>
  Claim C2 says that \<^verbatim>\<open>backup_data\<close>, having stopped a running container, still tries to
  start it again when a later step fails. The code does not: the container runs, it is
  stopped, the archive of the data succeeds, the archive of the desktop entries exits with
  code 2, and \<^verbatim>\<open>backup_data\<close> returns \<^verbatim>\<open>False\<close> having invoked four commands, none of
  them \<^verbatim>\<open>waydroid session start\<close>.
\<close>

theorem backup_data_leaves_container_stopped:
  "fst (is_container_running backup_fail_world) = Inr True \<and>
   fst (backup_data backup_fail_world) = False \<and>
   trace (snd (backup_data backup_fail_world)) =
     [Exec [''waydroid'', ''status''],
      Exec [''waydroid'', ''session'', ''stop''],
      Exec (backup_data_cmd (path_join BACKUP_PATH ''waydroid_backup_2023-11-14_22-13-20'')),
      Exec (backup_apps_cmd (path_join BACKUP_PATH ''waydroid_backup_2023-11-14_22-13-20''))] \<and>
   Exec [''waydroid'', ''session'', ''start''] \<notin> set (trace (snd (backup_data backup_fail_world))) \<and>
   logged (snd (backup_data backup_fail_world)) =
     [(''Failed to backup data: '', Some (CalledProcessError 2))]"
proof -
  have r: "fst (is_container_running backup_fail_world) = Inr True"
    by (simp add: backup_fail_world_def base_world_def is_container_running_def
        check_output_def spawn_def executed_def startswith_def)
  show ?thesis
    apply (simp add: r)
    apply (simp add: backup_data_def backup_fail_world_def base_world_def makedirs_def Let_def
        path_join_nonempty BACKUP_PATH_nonempty
        is_container_running_def check_output_def spawn_def executed_def startswith_def
        stop_container_def run_check_def backup_failed_def logger_error_def
        backup_data_cmd_def backup_apps_cmd_def)
    done
qed

text \<open>When every step succeeds, the container that was stopped is started again.\<close>

lemma backup_data_restarts_after_success:
  "fst (backup_data backup_ok_world) = True \<and>
   trace (snd (backup_data backup_ok_world)) =
     [Exec [''waydroid'', ''status''],
      Exec [''waydroid'', ''session'', ''stop''],
      Exec (backup_data_cmd (path_join BACKUP_PATH ''waydroid_backup_2023-11-14_22-13-20'')),
      Exec (backup_apps_cmd (path_join BACKUP_PATH ''waydroid_backup_2023-11-14_22-13-20'')),
      Exec [''waydroid'', ''session'', ''start'']]"
  by (simp add: backup_data_def backup_ok_world_def base_world_def makedirs_def Let_def
      path_join_nonempty BACKUP_PATH_nonempty
      is_container_running_def check_output_def spawn_def executed_def startswith_def
      stop_container_def start_container_def popen_def run_check_def set_setting_def
      example_db_def backup_data_cmd_def backup_apps_cmd_def)

section \<open>Restore\<close>

lemma max_by_in: "max_by key best xs \<in> set (best # xs)"
  by (induction xs arbitrary: best) auto

lemma max_by_ge_best: "key best \<le> key (max_by key best xs)"
proof (induction xs arbitrary: best)
  case Nil
  show ?case by simp
next
  case (Cons x xs)
  have "key best \<le> key (if key best < key x then x else best)" by simp
  also have "\<dots> \<le> key (max_by key (if key best < key x then x else best) xs)"
    by (rule Cons.IH)
  finally show ?case by simp
qed

lemma max_by_greatest: "x \<in> set (best # xs) \<Longrightarrow> key x \<le> key (max_by key best xs)"
proof (induction xs arbitrary: best)
  case Nil
  then show ?case by simp
next
  case (Cons y ys)
  let ?b = "if key best < key y then y else best"
  from Cons.prems consider "x = best" | "x = y" | "x \<in> set ys" by auto
  then show ?case
  proof cases
    case 1
    have "key best \<le> key ?b" by simp
    also have "\<dots> \<le> key (max_by key ?b ys)" by (rule max_by_ge_best)
    finally show ?thesis using 1 by simp
  next
    case 2
    have "key y \<le> key ?b" by simp
    also have "\<dots> \<le> key (max_by key ?b ys)" by (rule max_by_ge_best)
    finally show ?thesis using 2 by simp
  next
    case 3
    then have "x \<in> set (?b # ys)" by simp
    from Cons.IH [OF this] show ?thesis by simp
  qed
qed

lemma restore_from_no_archive:
  assumes "\<not> path_exists w (path_join d ''waydroid_data.tar.gz'')"
      and "\<not> path_exists w (path_join d ''waydroid_apps.tar.gz'')"
  shows "restore_finish (restore_from d w) = (False, logger_error ''No valid backup files found'' None w)"
  using assms by (simp add: restore_from_def restore_finish_def Let_def)

lemma restore_data_default:
  assumes "backup_dir = None \<or> backup_dir = Some []"
  shows "restore_data backup_dir w =
     (case listdir w BACKUP_PATH of
        None \<Rightarrow> (False, logger_error ''Failed to restore data: '' (Some FileNotFoundError) w)
      | Some names \<Rightarrow>
          (case backup_dirs w names of
             [] \<Rightarrow> (False, logger_error ''No backup found'' None w)
           | d # ds \<Rightarrow> restore_finish (restore_from (max_by (getmtime w) d ds) w)))"
  using assms by (auto simp: restore_data_def restore_finish_def split: option.splits list.splits)

text \<open>
  Claim C4. \<^verbatim>\<open>restore_data\<close> is called with no backup directory (\<^verbatim>\<open>None\<close>, or the empty
  string of the bus method). When \<^verbatim>\<open>BACKUP_PATH\<close> cannot be listed, when it holds no
  directory, and when no directory in it holds either archive file, the call returns
  \<^verbatim>\<open>False\<close> and the world after it is the world before it with one more log line: no
  command was invoked (the container is not stopped, nothing is extracted) and neither the
  data directory nor the desktop-entry directory is touched. When there are directories,
  the one restored from is one of them and none of them was modified later.
\<close>

theorem restore_data_fails_closed:
  assumes "backup_dir = None \<or> backup_dir = Some []"
  shows
  "(listdir w BACKUP_PATH = None \<longrightarrow>
      restore_data backup_dir w =
        (False, logger_error ''Failed to restore data: '' (Some FileNotFoundError) w)) \<and>
   (listdir w BACKUP_PATH = Some names \<and> backup_dirs w names = [] \<longrightarrow>
      restore_data backup_dir w = (False, logger_error ''No backup found'' None w)) \<and>
   (listdir w BACKUP_PATH = Some names \<and> backup_dirs w names \<noteq> [] \<longrightarrow>
      (\<exists>latest \<in> set (backup_dirs w names).
         (\<forall>d \<in> set (backup_dirs w names). getmtime w d \<le> getmtime w latest) \<and>
         restore_data backup_dir w = restore_finish (restore_from latest w))) \<and>
   (listdir w BACKUP_PATH = Some names \<and> backup_dirs w names \<noteq> [] \<and>
    (\<forall>d \<in> set (backup_dirs w names).
        \<not> path_exists w (path_join d ''waydroid_data.tar.gz'') \<and>
        \<not> path_exists w (path_join d ''waydroid_apps.tar.gz'')) \<longrightarrow>
      restore_data backup_dir w = (False, logger_error ''No valid backup files found'' None w)) \<and>
   trace (logger_error msg e w) = trace w \<and>
   data_dir (logger_error msg e w) = data_dir w \<and>
   apps_dir (logger_error msg e w) = apps_dir w \<and>
   store (logger_error msg e w) = store w"
proof -
  note rd = restore_data_default [OF assms, of w]
  have a: "listdir w BACKUP_PATH = None \<longrightarrow>
      restore_data backup_dir w =
        (False, logger_error ''Failed to restore data: '' (Some FileNotFoundError) w)"
    by (simp add: rd)
  have b: "listdir w BACKUP_PATH = Some names \<and> backup_dirs w names = [] \<longrightarrow>
      restore_data backup_dir w = (False, logger_error ''No backup found'' None w)"
    by (simp add: rd)
  have c: "\<exists>latest \<in> set (backup_dirs w names).
         (\<forall>d \<in> set (backup_dirs w names). getmtime w d \<le> getmtime w latest) \<and>
         restore_data backup_dir w = restore_finish (restore_from latest w)"
    if l: "listdir w BACKUP_PATH = Some names" and n: "backup_dirs w names \<noteq> []"
  proof -
    from n obtain d ds where ds: "backup_dirs w names = d # ds" by (cases "backup_dirs w names") auto
    let ?m = "max_by (getmtime w) d ds"
    have "?m \<in> set (backup_dirs w names)" using max_by_in [of "getmtime w" d ds] ds by simp
    moreover have "\<forall>x \<in> set (backup_dirs w names). getmtime w x \<le> getmtime w ?m"
      using max_by_greatest [of _ d ds "getmtime w"] ds by simp
    moreover have "restore_data backup_dir w = restore_finish (restore_from ?m w)"
      by (simp add: rd l ds)
    ultimately show ?thesis by blast
  qed
  have d: "restore_data backup_dir w = (False, logger_error ''No valid backup files found'' None w)"
    if l: "listdir w BACKUP_PATH = Some names" and n: "backup_dirs w names \<noteq> []"
      and none: "\<forall>d \<in> set (backup_dirs w names).
        \<not> path_exists w (path_join d ''waydroid_data.tar.gz'') \<and>
        \<not> path_exists w (path_join d ''waydroid_apps.tar.gz'')"
  proof -
    from c [OF l n] obtain latest where "latest \<in> set (backup_dirs w names)"
      and r: "restore_data backup_dir w = restore_finish (restore_from latest w)" by blast
    with none have "\<not> path_exists w (path_join latest ''waydroid_data.tar.gz'')"
      "\<not> path_exists w (path_join latest ''waydroid_apps.tar.gz'')" by auto
    from restore_from_no_archive [OF this] r show ?thesis by simp
  qed
  have e: "trace (logger_error msg e w) = trace w \<and>
   data_dir (logger_error msg e w) = data_dir w \<and>
   apps_dir (logger_error msg e w) = apps_dir w \<and>
   store (logger_error msg e w) = store w"
    by (simp add: logger_error_def)
  from a b c d e show ?thesis by blast
qed

theorem restore_data_fails_closed_witness:
  "listdir base_world BACKUP_PATH = None \<and>
   restore_data None base_world =
     (False, logger_error ''Failed to restore data: '' (Some FileNotFoundError) base_world) \<and>
   listdir empty_backups_world BACKUP_PATH = Some [] \<and>
   backup_dirs empty_backups_world [] = [] \<and>
   restore_data (Some []) empty_backups_world =
     (False, logger_error ''No backup found'' None empty_backups_world) \<and>
   listdir stale_backups_world BACKUP_PATH = Some [''old'', ''new'', ''notes.txt''] \<and>
   backup_dirs stale_backups_world [''old'', ''new'', ''notes.txt''] =
     [path_join BACKUP_PATH ''old'', path_join BACKUP_PATH ''new''] \<and>
   restore_data None stale_backups_world =
     (False, logger_error ''No valid backup files found'' None stale_backups_world) \<and>
   trace (snd (restore_data None stale_backups_world)) = trace stale_backups_world \<and>
   data_dir (snd (restore_data None stale_backups_world)) = data_dir stale_backups_world \<and>
   apps_dir (snd (restore_data None stale_backups_world)) = apps_dir stale_backups_world"
proof -
  have n: "(None :: string option) = None \<or> (None :: string option) = Some []" by simp
  have s: "Some ([] :: string) = None \<or> Some ([] :: string) = Some []" by simp
  have l1: "listdir base_world BACKUP_PATH = None" by (simp add: base_world_def)
  have l2: "listdir empty_backups_world BACKUP_PATH = Some []"
    by (simp add: empty_backups_world_def)
  have d2: "backup_dirs empty_backups_world [] = []" by (simp add: backup_dirs_def)
  have l3: "listdir stale_backups_world BACKUP_PATH = Some [''old'', ''new'', ''notes.txt'']"
    by (simp add: stale_backups_world_def)
  have d3: "backup_dirs stale_backups_world [''old'', ''new'', ''notes.txt''] =
     [path_join BACKUP_PATH ''old'', path_join BACKUP_PATH ''new'']"
    by (simp add: backup_dirs_def stale_backups_world_def path_join_def BACKUP_PATH_def
        startswith_def endswith_def)
  have e3: "\<forall>d \<in> set (backup_dirs stale_backups_world [''old'', ''new'', ''notes.txt'']).
        \<not> path_exists stale_backups_world (path_join d ''waydroid_data.tar.gz'') \<and>
        \<not> path_exists stale_backups_world (path_join d ''waydroid_apps.tar.gz'')"
    by (simp add: stale_backups_world_def base_world_def)
  have ne: "backup_dirs stale_backups_world [''old'', ''new'', ''notes.txt''] \<noteq> []"
    by (simp add: d3)
  from restore_data_fails_closed [OF n, of base_world "[]" "''''" None]
  have r1: "restore_data None base_world =
     (False, logger_error ''Failed to restore data: '' (Some FileNotFoundError) base_world)"
    using l1 by simp
  from restore_data_fails_closed [OF s, of empty_backups_world "[]" "''''" None]
  have r2: "restore_data (Some []) empty_backups_world =
     (False, logger_error ''No backup found'' None empty_backups_world)"
    using l2 d2 by simp
  from restore_data_fails_closed [OF n, of stale_backups_world "[''old'', ''new'', ''notes.txt'']"
        "''No valid backup files found''" None]
  have r3: "restore_data None stale_backups_world =
     (False, logger_error ''No valid backup files found'' None stale_backups_world)"
    and k: "trace (logger_error ''No valid backup files found'' None stale_backups_world)
              = trace stale_backups_world"
      "data_dir (logger_error ''No valid backup files found'' None stale_backups_world)
              = data_dir stale_backups_world"
      "apps_dir (logger_error ''No valid backup files found'' None stale_backups_world)
              = apps_dir stale_backups_world"
    using l3 ne e3 by blast+
  from l1 r1 l2 d2 r2 l3 d3 r3 k show ?thesis by simp
qed

lemma restore_data_selects_latest:
  "restore_data None stale_backups_world =
     restore_finish (restore_from (path_join BACKUP_PATH ''new'') stale_backups_world)"
  by (simp add: restore_data_def stale_backups_world_def backup_dirs_def path_join_def
      BACKUP_PATH_def startswith_def endswith_def)

section \<open>Resource sampling and the monitor loop\<close>

lemma lower_Waydroid: "lower ''Waydroid'' = ''waydroid''"
  by (simp add: lower_def lower_char_def)

lemma sample_running: "sample_resources running_world = ((25, 1, 1), None)"
  by (simp add: sample_resources_def running_world_def base_world_def is_waydroid_process_def
      lower_def lower_char_def startswith_def total_cpu_def total_ram_def cpu_fraction_def)




lemma get_container_resource_usage_result:
  assumes "resource_logs_tbl (store w) = Some rows"
      and "fst (sample_resources w) = (cpu, ram, sto)"
  shows "fst (get_container_resource_usage w) = Inr (cpu, ram, sto)"
    and "store (snd (get_container_resource_usage w)) =
           (store w)\<lparr>resource_logs_tbl :=
              Some (prune_logs (rows @ [new_row (clock w) cpu ram sto rows]))\<rparr>"
    and "trace (snd (get_container_resource_usage w)) = trace w"
    and "clock (snd (get_container_resource_usage w)) = clock w"
proof -
  obtain err where s: "sample_resources w = ((cpu, ram, sto), err)"
    using assms(2) by (cases "sample_resources w") auto
  show "fst (get_container_resource_usage w) = Inr (cpu, ram, sto)"
    using assms(1) s
    by (simp add: get_container_resource_usage_def log_resource_usage_def logger_error_def
        split: option.splits)
  show "store (snd (get_container_resource_usage w)) =
           (store w)\<lparr>resource_logs_tbl :=
              Some (prune_logs (rows @ [new_row (clock w) cpu ram sto rows]))\<rparr>"
    using assms(1) s
    by (simp add: get_container_resource_usage_def log_resource_usage_def logger_error_def
        split: option.splits)
  show "trace (snd (get_container_resource_usage w)) = trace w"
    using assms(1) s
    by (simp add: get_container_resource_usage_def log_resource_usage_def logger_error_def
        split: option.splits)
  show "clock (snd (get_container_resource_usage w)) = clock w"
    using assms(1) s
    by (simp add: get_container_resource_usage_def log_resource_usage_def logger_error_def
        split: option.splits)
qed




lemma is_container_running_frame:
  "\<exists>l. snd (is_container_running w) =
         w\<lparr>trace := trace w @ [Exec [''waydroid'', ''status'']], logged := l\<rparr>"
proof -
  have "snd (is_container_running w) =
         w\<lparr>trace := trace w @ [Exec [''waydroid'', ''status'']],
           logged := logged (snd (is_container_running w))\<rparr>"
    by (cases "proc w (trace w) [''waydroid'', ''status'']")
       (simp_all add: is_container_running_def check_output_def spawn_def executed_def
          logger_error_def)
  then show ?thesis by blast
qed

lemma sample_resources_frame [simp]:
  "sample_resources (w\<lparr>trace := t, logged := l\<rparr>) = sample_resources w"
  by (simp add: sample_resources_def Let_def split: sum.splits option.splits)

lemma monitor_tick_running:
  assumes tbl: "resource_logs_tbl (store w) = Some rows"
      and run: "fst (is_container_running w) = Inr True"
      and fig: "fst (sample_resources w) = (cpu, ram, sto)"
  shows "store (monitor_tick w) =
           (store w)\<lparr>resource_logs_tbl :=
              Some (prune_logs (rows @ [new_row (clock w) cpu ram sto rows]))\<rparr>"
    and "trace (monitor_tick w) =
           trace w @ [Exec [''waydroid'', ''status''], ResourceUsageChanged cpu ram sto]"
    and "clock (monitor_tick w) = clock w"
proof -
  obtain l where w1: "snd (is_container_running w) =
      w\<lparr>trace := trace w @ [Exec [''waydroid'', ''status'']], logged := l\<rparr>" (is "_ = ?w1")
    using is_container_running_frame by blast
  from run w1 have icr: "is_container_running w = (Inr True, ?w1)"
    by (cases "is_container_running w") simp
  have tbl1: "resource_logs_tbl (store ?w1) = Some rows" using tbl by simp
  have fig1: "fst (sample_resources ?w1) = (cpu, ram, sto)" using fig by simp
  note r = get_container_resource_usage_result [OF tbl1 fig1]
  obtain w2 where g: "get_container_resource_usage ?w1 = (Inr (cpu, ram, sto), w2)"
    using r(1) by (cases "get_container_resource_usage ?w1") auto
  have tick: "monitor_tick w = emit_ResourceUsageChanged cpu ram sto w2"
    by (simp add: monitor_tick_def icr g)
  show "store (monitor_tick w) =
           (store w)\<lparr>resource_logs_tbl :=
              Some (prune_logs (rows @ [new_row (clock w) cpu ram sto rows]))\<rparr>"
    using r(2) g by (simp add: tick emit_ResourceUsageChanged_def)
  show "trace (monitor_tick w) =
           trace w @ [Exec [''waydroid'', ''status''], ResourceUsageChanged cpu ram sto]"
    using r(3) g by (simp add: tick emit_ResourceUsageChanged_def)
  show "clock (monitor_tick w) = clock w"
    using r(4) g by (simp add: tick emit_ResourceUsageChanged_def)
qed

lemma monitor_tick_not_running:
  assumes "fst (is_container_running w) \<noteq> Inr True"
  shows "store (monitor_tick w) = store w"
    and "trace (monitor_tick w) = trace w @ [Exec [''waydroid'', ''status'']]"
    and "clock (monitor_tick w) = clock w"
proof -
  obtain l where w1: "snd (is_container_running w) =
      w\<lparr>trace := trace w @ [Exec [''waydroid'', ''status'']], logged := l\<rparr>" (is "_ = ?w1")
    using is_container_running_frame by blast
  obtain r where icr: "is_container_running w = (r, ?w1)"
    using w1 by (cases "is_container_running w") simp
  from assms icr have nr: "r \<noteq> Inr True" by simp
  have "monitor_tick w = ?w1 \<or>
        (\<exists>e. monitor_tick w = logger_error ''Error in resource monitor loop: '' (Some e) ?w1)"
    using nr by (cases r) (auto simp: monitor_tick_def icr)
  then show "store (monitor_tick w) = store w"
    and "trace (monitor_tick w) = trace w @ [Exec [''waydroid'', ''status'']]"
    and "clock (monitor_tick w) = clock w"
    by (auto simp: logger_error_def)
qed

text \<open>
  Claim C7. On a store whose \<^verbatim>\<open>resource_logs\<close> table exists, for every tick of the
  monitor loop: when \<^verbatim>\<open>is_container_running\<close> does not return \<^verbatim>\<open>True\<close>, the store is
  left as it is and the only effect is the status command (no sample, no signal); when it
  returns \<^verbatim>\<open>True\<close>, exactly one row with the sampled figures is inserted and exactly one
  \<^verbatim>\<open>ResourceUsageChanged\<close> signal with the same three figures is emitted. Each pass of
  the loop ends with \<^verbatim>\<open>time.sleep(3)\<close>, and while \<^verbatim>\<open>monitoring\<close> holds the loop goes on
  with the next pass.
\<close>

theorem monitor_tick_samples_iff_running:
  assumes "resource_logs_tbl (store w) = Some rows"
  shows
  "(fst (is_container_running w) \<noteq> Inr True \<longrightarrow>
      store (monitor_tick w) = store w \<and>
      trace (monitor_tick w) = trace w @ [Exec [''waydroid'', ''status'']]) \<and>
   (fst (is_container_running w) = Inr True \<longrightarrow>
      (\<exists>cpu ram sto.
         fst (sample_resources w) = (cpu, ram, sto) \<and>
         store (monitor_tick w) =
           (store w)\<lparr>resource_logs_tbl :=
              Some (prune_logs (rows @ [new_row (clock w) cpu ram sto rows]))\<rparr> \<and>
         trace (monitor_tick w) =
           trace w @ [Exec [''waydroid'', ''status''], ResourceUsageChanged cpu ram sto])) \<and>
   trace (monitor_iteration w) = trace (monitor_tick w) @ [Sleep 3] \<and>
   store (monitor_iteration w) = store (monitor_tick w) \<and>
   clock (monitor_iteration w) = clock w + 3 \<and>
   (monitoring w \<longrightarrow> resource_monitor_loop (Suc n) w = resource_monitor_loop n (monitor_iteration w))"
proof -
  have a: "fst (is_container_running w) \<noteq> Inr True \<longrightarrow>
      store (monitor_tick w) = store w \<and>
      trace (monitor_tick w) = trace w @ [Exec [''waydroid'', ''status'']]"
    using monitor_tick_not_running(1,2) [of w] by blast
  have b: "fst (is_container_running w) = Inr True \<longrightarrow>
      (\<exists>cpu ram sto.
         fst (sample_resources w) = (cpu, ram, sto) \<and>
         store (monitor_tick w) =
           (store w)\<lparr>resource_logs_tbl :=
              Some (prune_logs (rows @ [new_row (clock w) cpu ram sto rows]))\<rparr> \<and>
         trace (monitor_tick w) =
           trace w @ [Exec [''waydroid'', ''status''], ResourceUsageChanged cpu ram sto])"
  proof
    assume run: "fst (is_container_running w) = Inr True"
    obtain cpu ram sto where f: "fst (sample_resources w) = (cpu, ram, sto)"
      by (cases "fst (sample_resources w)") auto
    from monitor_tick_running(1,2) [OF assms run f] f
    show "\<exists>cpu ram sto.
         fst (sample_resources w) = (cpu, ram, sto) \<and>
         store (monitor_tick w) =
           (store w)\<lparr>resource_logs_tbl :=
              Some (prune_logs (rows @ [new_row (clock w) cpu ram sto rows]))\<rparr> \<and>
         trace (monitor_tick w) =
           trace w @ [Exec [''waydroid'', ''status''], ResourceUsageChanged cpu ram sto]"
      by blast
  qed
  have ck: "clock (monitor_tick w) = clock w"
  proof (cases "fst (is_container_running w) = Inr True")
    case True
    obtain cpu ram sto where f: "fst (sample_resources w) = (cpu, ram, sto)"
      by (cases "fst (sample_resources w)") auto
    from monitor_tick_running(3) [OF assms True f] show ?thesis .
  next
    case False
    from monitor_tick_not_running(3) [OF False] show ?thesis .
  qed
  have c: "trace (monitor_iteration w) = trace (monitor_tick w) @ [Sleep 3]"
    "store (monitor_iteration w) = store (monitor_tick w)"
    "clock (monitor_iteration w) = clock w + 3"
    using ck by (simp_all add: monitor_iteration_def sleep_def)
  have d: "monitoring w \<longrightarrow>
      resource_monitor_loop (Suc n) w = resource_monitor_loop n (monitor_iteration w)"
    by simp
  from a b c d show ?thesis by blast
qed

theorem monitor_tick_samples_iff_running_witness:
  "resource_logs_tbl (store base_world) = Some example_rows \<and>
   fst (is_container_running base_world) = Inr False \<and>
   store (monitor_tick base_world) = store base_world \<and>
   trace (monitor_tick base_world) = [Exec [''waydroid'', ''status'']] \<and>
   resource_logs_tbl (store running_world) = Some example_rows \<and>
   fst (is_container_running running_world) = Inr True \<and>
   fst (sample_resources running_world) = (25, 1, 1) \<and>
   trace (monitor_tick running_world) =
     [Exec [''waydroid'', ''status''], ResourceUsageChanged 25 1 1] \<and>
   store (monitor_tick running_world) =
     (store running_world)\<lparr>resource_logs_tbl :=
        Some (example_rows @
              [\<lparr>rowid = 3, timestamp = 1700000000, cpu_usage = 25, ram_usage = 1,
                storage_usage = 1\<rparr>])\<rparr> \<and>
   trace (monitor_iteration running_world) =
     [Exec [''waydroid'', ''status''], ResourceUsageChanged 25 1 1, Sleep 3] \<and>
   monitoring running_world \<and>
   resource_monitor_loop (Suc 0) running_world = monitor_iteration running_world"
proof -
  have t1: "resource_logs_tbl (store base_world) = Some example_rows"
    by (simp add: base_world_def example_db_def)
  have r1: "fst (is_container_running base_world) = Inr False"
    by (simp add: base_world_def is_container_running_def check_output_def spawn_def executed_def)
  have t2: "resource_logs_tbl (store running_world) = Some example_rows"
    by (simp add: running_world_def base_world_def example_db_def)
  have r2: "fst (is_container_running running_world) = Inr True"
    by (simp add: running_world_def base_world_def is_container_running_def check_output_def
        spawn_def executed_def startswith_def)
  have f2: "fst (sample_resources running_world) = (25, 1, 1)"
    by (simp add: sample_running)
  have e: "trace base_world = []" "trace running_world = []" "clock running_world = 1700000000"
    "monitoring running_world"
    by (simp_all add: running_world_def base_world_def)
  have p: "prune_logs (example_rows @ [new_row 1700000000 25 1 1 example_rows]) =
      example_rows @
        [\<lparr>rowid = 3, timestamp = 1700000000, cpu_usage = 25, ram_usage = 1,
          storage_usage = 1\<rparr>]"
    by (simp add: prune_logs_def newest_rowids_def new_row_def next_rowid_def example_rows_def)
  from monitor_tick_samples_iff_running [OF t1, of 0] r1
  have a: "store (monitor_tick base_world) = store base_world"
    "trace (monitor_tick base_world) = [Exec [''waydroid'', ''status'']]"
    by (simp_all add: e)
  from monitor_tick_samples_iff_running [OF t2, of 0] r2 f2
  have b: "trace (monitor_tick running_world) =
     [Exec [''waydroid'', ''status''], ResourceUsageChanged 25 1 1]"
    "store (monitor_tick running_world) =
     (store running_world)\<lparr>resource_logs_tbl :=
        Some (example_rows @
              [\<lparr>rowid = 3, timestamp = 1700000000, cpu_usage = 25, ram_usage = 1,
                storage_usage = 1\<rparr>])\<rparr>"
    "trace (monitor_iteration running_world) =
     [Exec [''waydroid'', ''status''], ResourceUsageChanged 25 1 1, Sleep 3]"
    "resource_monitor_loop (Suc 0) running_world = monitor_iteration running_world"
    by (simp_all add: e p)
  from t1 r1 a t2 r2 f2 b e(4) show ?thesis by simp
qed

section \<open>App visibility\<close>

text \<open>
  Claim C3 says that after a successful \<^verbatim>\<open>set_app_visibility\<close> every desktop entry that
  refers to the package has its \<^verbatim>\<open>NoDisplay\<close> flag set, the flag line being inserted when
  it was absent. The code does not do so for an entry whose last line has no line feed:
  the call returns \<^verbatim>\<open>True\<close> and the store records the row, but the flag is written onto
  the end of the \<^verbatim>\<open>Exec\<close> line, and the entry read again has no line that starts with
  \<^verbatim>\<open>NoDisplay=\<close>.
\<close>

theorem set_app_visibility_unterminated_entry:
  "fst (set_app_visibility ''com.foo'' ''Foo'' False unterminated_entry_world) = True \<and>
   app_visibility_tbl (store (snd (set_app_visibility ''com.foo'' ''Foo'' False unterminated_entry_world)))
     = Some [(''com.foo'', ''Foo'', 0)] \<and>
   apps_dir (snd (set_app_visibility ''com.foo'' ''Foo'' False unterminated_entry_world)) =
     Some [(''waydroid.com.foo.desktop'',
            \<lparr>content = Some (''[Desktop Entry]'' @ [newline] @ ''Name=Foo'' @ [newline] @
                             ''Exec=waydroid app launch com.fooNoDisplay=true'' @ [newline]),
             writable = True\<rparr>)] \<and>
   readlines (''[Desktop Entry]'' @ [newline] @ ''Name=Foo'' @ [newline] @
              ''Exec=waydroid app launch com.fooNoDisplay=true'' @ [newline]) =
     [''[Desktop Entry]'' @ [newline], ''Name=Foo'' @ [newline],
      ''Exec=waydroid app launch com.fooNoDisplay=true'' @ [newline]] \<and>
   filter (\<lambda>line. startswith line ''NoDisplay='')
     (readlines (''[Desktop Entry]'' @ [newline] @ ''Name=Foo'' @ [newline] @
                 ''Exec=waydroid app launch com.fooNoDisplay=true'' @ [newline])) = []"
  by (simp add: set_app_visibility_def unterminated_entry_world_def base_world_def example_db_def
      db_set_app_visibility_def insert_or_replace_def endswith_def startswith_def newline_def
      write_file_def rewrite_lines_def no_display_line_def str_of_bool_def lower_def
      lower_char_def Let_def)

text \<open>With the line feed at the end of the entry, the flag line is added as a line.\<close>

lemma set_app_visibility_terminated_entry:
  "fst (set_app_visibility ''com.foo'' ''Foo'' False terminated_entry_world) = True \<and>
   apps_dir (snd (set_app_visibility ''com.foo'' ''Foo'' False terminated_entry_world)) =
     Some [(''waydroid.com.foo.desktop'',
            \<lparr>content = Some (''[Desktop Entry]'' @ [newline] @ ''Name=Foo'' @ [newline] @
                             ''Exec=waydroid app launch com.foo'' @ [newline] @
                             ''NoDisplay=true'' @ [newline]),
             writable = True\<rparr>)]"
  by (simp add: set_app_visibility_def terminated_entry_world_def base_world_def example_db_def
      db_set_app_visibility_def insert_or_replace_def endswith_def startswith_def newline_def
      write_file_def rewrite_lines_def no_display_line_def str_of_bool_def lower_def
      lower_char_def Let_def)

lemma readlines_empty_iff: "readlines s = [] \<longleftrightarrow> s = []"
  by (cases s) (auto split: list.splits)

lemma concat_readlines: "concat (readlines s) = s"
  by (induction s) (auto split: list.splits)

lemma readlines_proper_append:
  "proper_line l \<Longrightarrow> readlines (l @ rest) = l # readlines rest"
proof (induction l)
  case Nil
  then show ?case by (simp add: proper_line_def)
next
  case (Cons c l)
  show ?case
  proof (cases "l = []")
    case True
    with Cons.prems have "c = newline" by (simp add: proper_line_def)
    with True show ?thesis by simp
  next
    case False
    with Cons.prems have c: "c \<noteq> newline" and p: "proper_line l"
      by (auto simp: proper_line_def)
    from Cons.IH [OF p] c show ?thesis by simp
  qed
qed

lemma readlines_concat_proper:
  "list_all proper_line ls \<Longrightarrow> readlines (concat ls) = ls"
  by (induction ls) (simp_all add: readlines_proper_append)

lemma readlines_all_proper:
  "s = [] \<or> last s = newline \<Longrightarrow> list_all proper_line (readlines s)"
proof (induction s)
  case Nil
  show ?case by simp
next
  case (Cons c cs)
  show ?case
  proof (cases "c = newline")
    case True
    have "cs = [] \<or> last cs = newline" using Cons.prems by (cases cs) auto
    from Cons.IH [OF this] True show ?thesis by (simp add: proper_line_def)
  next
    case False
    with Cons.prems have ne: "cs \<noteq> []" and l: "last cs = newline" by (cases cs; simp)+
    from Cons.IH l have ih: "list_all proper_line (readlines cs)" by simp
    from ne obtain x xs where r: "readlines cs = x # xs"
      by (cases "readlines cs") (simp_all add: readlines_empty_iff)
    with ih have px: "proper_line x" and pxs: "list_all proper_line xs" by simp_all
    from px False have "proper_line (c # x)" by (auto simp: proper_line_def)
    with pxs r False show ?thesis by simp
  qed
qed

lemma proper_no_display_line: "proper_line (no_display_line visible)"
  by (cases visible)
     (simp_all add: proper_line_def no_display_line_def str_of_bool_def lower_def lower_char_def
        newline_def)

lemma rewrite_lines_terminated:
  assumes "s = [] \<or> last s = newline"
  shows "readlines (rewrite_lines visible (readlines s)) =
           map (\<lambda>line. if startswith line ''NoDisplay='' then no_display_line visible else line)
               (readlines s) @
           (if list_ex (\<lambda>line. startswith line ''NoDisplay='') (readlines s) then []
            else [no_display_line visible])"
proof -
  let ?f = "\<lambda>line. if startswith line ''NoDisplay='' then no_display_line visible else line"
  let ?extra = "if list_ex (\<lambda>line. startswith line ''NoDisplay='') (readlines s) then []
            else [no_display_line visible]"
  have p: "list_all proper_line (readlines s)" using assms by (rule readlines_all_proper)
  have "list_all proper_line (map ?f (readlines s))"
    using p by (auto simp: list_all_iff proper_no_display_line)
  then have all: "list_all proper_line (map ?f (readlines s) @ ?extra)"
    by (simp add: proper_no_display_line)
  have "rewrite_lines visible (readlines s) = concat (map ?f (readlines s) @ ?extra)"
    by (simp add: rewrite_lines_def Let_def)
  with readlines_concat_proper [OF all] show ?thesis by simp
qed

lemma no_display_line_is_flag: "startswith (no_display_line visible) ''NoDisplay=''"
  by (simp add: startswith_def no_display_line_def)

lemma rewrite_lines_flag_converges:
  assumes "s = [] \<or> last s = newline"
  shows "no_display_line visible \<in> set (readlines (rewrite_lines visible (readlines s)))"
    and "line \<in> set (readlines (rewrite_lines visible (readlines s))) \<Longrightarrow>
         startswith line ''NoDisplay='' \<Longrightarrow> line = no_display_line visible"
proof -
  note r = rewrite_lines_terminated [OF assms, of visible]
  show "no_display_line visible \<in> set (readlines (rewrite_lines visible (readlines s)))"
    unfolding r by (auto simp: list_ex_iff)
  show "line \<in> set (readlines (rewrite_lines visible (readlines s))) \<Longrightarrow>
         startswith line ''NoDisplay='' \<Longrightarrow> line = no_display_line visible"
    unfolding r by (auto simp: list_ex_iff split: if_splits)
qed

lemma map_fst_write_file: "map fst (write_file n t files) = map fst files"
  by (induction files) (auto simp: write_file_def)

lemma map_of_distinct_entry:
  "distinct (map fst files) \<Longrightarrow> (n, f) \<in> set files \<Longrightarrow> map_of files n = Some f"
  by simp

lemma update_desktop_files_result:
  assumes "update_desktop_files visible ns files = (None, files')"
      and "distinct ns" and "distinct (map fst files)"
  shows "files' = map (\<lambda>(n, f). if n \<in> set ns then (n, rewritten visible f) else (n, f)) files"
  using assms
proof (induction ns arbitrary: files)
  case Nil
  then show ?case by simp
next
  case (Cons n ns)
  from Cons.prems(1) obtain f body where
    mf: "map_of files n = Some f" and ct: "content f = Some body" and wr: "writable f" and
    rest: "update_desktop_files visible ns
             (write_file n (rewrite_lines visible (readlines body)) files) = (None, files')"
    by (auto split: option.splits if_splits)
  let ?files1 = "write_file n (rewrite_lines visible (readlines body)) files"
  have d1: "distinct (map fst ?files1)" using Cons.prems(3) by (simp add: map_fst_write_file)
  from Cons.prems(2) have dn: "distinct ns" and nn: "n \<notin> set ns" by simp_all
  have ih: "files' = map (\<lambda>(m, g). if m \<in> set ns then (m, rewritten visible g) else (m, g)) ?files1"
    by (rule Cons.IH [OF rest dn d1])
  have "map (\<lambda>(m, g). if m \<in> set ns then (m, rewritten visible g) else (m, g)) ?files1
      = map (\<lambda>(m, g). if m \<in> set (n # ns) then (m, rewritten visible g) else (m, g)) files"
    unfolding write_file_def map_map
  proof (rule map_cong [OF refl])
    fix e assume e: "e \<in> set files"
    obtain m g where mg: "e = (m, g)" by (cases e)
    show "((\<lambda>(m, g). if m \<in> set ns then (m, rewritten visible g) else (m, g)) \<circ>
           (\<lambda>(m, g). if m = n then (m, g\<lparr>content := Some (rewrite_lines visible (readlines body))\<rparr>)
                      else (m, g))) e =
          (case e of (m, g) \<Rightarrow> if m \<in> set (n # ns) then (m, rewritten visible g) else (m, g))"
    proof (cases "m = n")
      case True
      with e mg Cons.prems(3) mf have "g = f" by simp
      with True mg nn ct show ?thesis by (simp add: rewritten_def)
    next
      case False
      with mg show ?thesis by simp
    qed
  qed
  with ih show ?case by simp
qed

lemma find_desktop_files_result:
  assumes "find_desktop_files package_name files = Inr ns"
  shows "ns = map fst (filter (\<lambda>(n, f). endswith n ''.desktop'' \<and>
                                  (\<exists>text. content f = Some text \<and> contains package_name text)) files)"
    and "\<forall>(n, f) \<in> set files. endswith n ''.desktop'' \<longrightarrow> content f \<noteq> None"
  using assms
proof (induction files arbitrary: ns)
  case Nil
  { case 1 then show ?case by simp }
  { case 2 then show ?case by simp }
next
  case (Cons e files)
  obtain n f where e: "e = (n, f)" by (cases e)
  { case 1
    then show ?case using Cons.IH(1) e
      by (auto split: if_splits option.splits sum.splits) }
  { case 2
    then show ?case using Cons.IH(2) e
      by (auto split: if_splits option.splits sum.splits) }
qed

text \<open>
  For every successful call on a directory with distinct file names: the store holds the
  row of the package with the flag given, and the directory is the old one with each
  \<^verbatim>\<open>.desktop\<close> file whose text contains the package name rewritten.
\<close>

lemma set_app_visibility_success:
  assumes ok: "set_app_visibility package_name app_name visible w = (True, w')"
      and dir: "apps_dir w = Some files" and dist: "distinct (map fst files)"
  shows "map_of (rows_of (app_visibility_tbl (store w'))) package_name =
           Some (app_name, if visible then 1 else 0)"
    and "apps_dir w' =
           Some (map (\<lambda>(n, f). if endswith n ''.desktop'' \<and>
                                    (\<exists>body. content f = Some body \<and> contains package_name body)
                                 then (n, rewritten visible f) else (n, f)) files)"
    and "logged w' = logged w"
proof -
  let ?found = "\<lambda>(n, f). endswith n ''.desktop'' \<and>
                   (\<exists>body. content f = Some body \<and> contains package_name body)"
  from ok obtain d where db: "db_set_app_visibility package_name app_name visible (store w) = Inr d"
    by (cases "db_set_app_visibility package_name app_name visible (store w)")
       (auto simp: set_app_visibility_def)
  from ok db dir obtain ns where fd: "find_desktop_files package_name files = Inr ns"
    by (cases "find_desktop_files package_name files")
       (auto simp: set_app_visibility_def Let_def)
  from ok db dir fd obtain files' where
    up: "update_desktop_files visible ns files = (None, files')" and
    w': "w' = w\<lparr>store := d, apps_dir := Some files'\<rparr>"
    by (cases "update_desktop_files visible ns files")
       (auto simp: set_app_visibility_def Let_def split: option.splits)
  have ns: "ns = map fst (filter ?found files)" by (rule find_desktop_files_result(1) [OF fd])
  have dns: "distinct ns" unfolding ns using dist by (rule distinct_map_filter)
  have mem: "n \<in> set ns \<longleftrightarrow> ?found (n, f)" if "(n, f) \<in> set files" for n f
  proof
    assume "n \<in> set ns"
    then obtain g where g: "(n, g) \<in> set files" "?found (n, g)" unfolding ns by auto
    from dist that g(1) have "g = f" by (meson eq_key_imp_eq_value)
    with g(2) show "?found (n, f)" by simp
  next
    assume "?found (n, f)"
    with that show "n \<in> set ns" unfolding ns by force
  qed
  have "files' = map (\<lambda>(n, f). if n \<in> set ns then (n, rewritten visible f) else (n, f)) files"
    by (rule update_desktop_files_result [OF up dns dist])
  also have "\<dots> = map (\<lambda>(n, f). if ?found (n, f) then (n, rewritten visible f) else (n, f)) files"
    by (rule map_cong [OF refl]) (use mem in auto)
  finally have fs: "files' =
     map (\<lambda>(n, f). if ?found (n, f) then (n, rewritten visible f) else (n, f)) files" .
  show "apps_dir w' =
           Some (map (\<lambda>(n, f). if endswith n ''.desktop'' \<and>
                                    (\<exists>body. content f = Some body \<and> contains package_name body)
                                 then (n, rewritten visible f) else (n, f)) files)"
    using fs w' by simp
  show "logged w' = logged w" using w' by simp
  from db obtain rows where d: "d = (store w)\<lparr>app_visibility_tbl :=
        Some (insert_or_replace package_name (app_name, if visible then 1 else 0) rows)\<rparr>"
    by (auto simp: db_set_app_visibility_def split: option.splits)
  show "map_of (rows_of (app_visibility_tbl (store w'))) package_name =
           Some (app_name, if visible then 1 else 0)"
    using w' d by (simp add: rows_of_def map_of_insert_or_replace_same)
qed

text \<open>
  So an entry that refers to the package and ends with a line feed (or is empty) has,
  after a successful call, a \<^verbatim>\<open>NoDisplay\<close> line, and each of its \<^verbatim>\<open>NoDisplay\<close> lines is
  the one for the negation of \<^verbatim>\<open>visible\<close>.
\<close>

lemma set_app_visibility_flag_converges:
  assumes ok: "set_app_visibility package_name app_name visible w = (True, w')"
      and dir: "apps_dir w = Some files" and dist: "distinct (map fst files)"
      and entry: "(n, f) \<in> set files" "endswith n ''.desktop''"
      and refs: "content f = Some body" "contains package_name body"
      and fin: "body = [] \<or> last body = newline"
  shows "\<exists>files' body'.
           apps_dir w' = Some files' \<and>
           (n, f\<lparr>content := Some body'\<rparr>) \<in> set files' \<and>
           no_display_line visible \<in> set (readlines body') \<and>
           (\<forall>line \<in> set (readlines body').
              startswith line ''NoDisplay='' \<longrightarrow> line = no_display_line visible)"
proof -
  let ?body' = "rewrite_lines visible (readlines body)"
  let ?files' = "map (\<lambda>(n, f). if endswith n ''.desktop'' \<and>
                                    (\<exists>body. content f = Some body \<and> contains package_name body)
                                 then (n, rewritten visible f) else (n, f)) files"
  have a: "apps_dir w' = Some ?files'" by (rule set_app_visibility_success(2) [OF ok dir dist])
  have "(n, rewritten visible f) \<in> set ?files'"
    using entry refs by (force simp: image_iff)
  then have b: "(n, f\<lparr>content := Some ?body'\<rparr>) \<in> set ?files'"
    using refs(1) by (simp add: rewritten_def)
  note c = rewrite_lines_flag_converges [OF fin, where visible = visible]
  from a b c show ?thesis by blast
qed

text \<open>A call that returns \<^verbatim>\<open>False\<close> has logged the exception that ended it.\<close>

lemma set_app_visibility_failure_logged:
  assumes "fst (set_app_visibility package_name app_name visible w) = False"
  shows "\<exists>e. logged (snd (set_app_visibility package_name app_name visible w)) =
              logged w @ [(''Failed to set app visibility: '', Some e)]"
  using assms
  by (auto simp: set_app_visibility_def Let_def logger_error_def
      split: sum.splits option.splits prod.splits)

end
